theory Spec2Isabelle
  imports Main "HOL-Library.Word"
begin

unbundle bit_operations_syntax

section \<open>Machine types and external constants\<close>

type_synonym u8 = "8 word"
type_synonym u16 = "16 word"
type_synonym u32 = "32 word"
type_synonym u64 = "64 word"

text \<open>
  A C \<open>int\<close> that is stored in a flow entry is a 32-bit two's complement value: the bits
  are a \<open>32 word\<close> and every comparison reads it with \<open>sint\<close>.  Return codes, on which
  the code only tests the sign, are HOL integers.
\<close>

type_synonym c_int = "32 word"

text \<open>
  The global conversion constants \<open>cycles_per_sec\<close>, \<open>cycles_per_ms\<close> and
  \<open>picosec_per_cycle\<close> are declared outside of \<open>gk/main.c\<close> (64-bit unsigned); every
  function that reads one of them takes this record.
\<close>

record timing =
  cycles_per_sec :: u64
  cycles_per_ms :: u64
  picosec_per_cycle :: u64

section \<open>Packets and flows\<close>

text \<open>
  Of \<open>struct rte_mbuf\<close> the code reads \<open>data_len\<close> (16 bits, unsigned) and
  \<open>hash.rss\<close>; \<open>mbuf_id\<close> stands for the identity of the buffer.
\<close>

record rte_mbuf =
  mbuf_id :: nat
  data_len :: u16
  hash_rss :: u32

text \<open>The flow key is compared for equality only; its layout is not in the sources.\<close>

type_synonym ip_flow = nat

datatype gk_flow_state = GK_REQUEST | GK_GRANTED | GK_DECLINED

section \<open>Policies and mailbox commands\<close>

text \<open>
  Modelled from the spec: \<open>struct ggu_policy\<close>, whose declaration is not in the sources,
  is the command \<open>POLICY_ADD(flow, state, params)\<close>: a state, the flow and a union of the
  parameters of a granted and of a declined decision.  The parameters are taken as
  unsigned 32-bit fields; each is converted to 64 bits before it is multiplied with a
  cycle constant, and \<open>tx_rate_kb_sec\<close> is stored into an \<open>int\<close> bit for bit.  A state
  other than granted and declined takes the \<open>default\<close> branch of \<open>add_ggu_policy\<close>.
\<close>

record ggu_granted =
  tx_rate_kb_sec :: u32
  cap_expire_sec :: u32
  next_renewal_ms :: u32
  renewal_step_ms :: u32

record ggu_declined =
  expire_sec :: u32

datatype ggu_params =
    Params_granted (params_granted: ggu_granted)
  | Params_declined (params_declined: ggu_declined)

record ggu_policy =
  pol_state :: gk_flow_state
  pol_flow :: ip_flow
  params :: ggu_params

text \<open>
  A command of the GK mailbox: the operation and, for \<open>GGU_POLICY_ADD\<close>, the policy.
  Any other value of \<open>op\<close> takes the \<open>default\<close> branch of \<open>process_gk_cmd\<close>.
\<close>

datatype gk_cmd_op = GGU_POLICY_ADD | GK_CMD_OTHER nat

record gk_cmd_entry =
  op :: gk_cmd_op
  ggu :: ggu_policy

section \<open>Requests to the LLS block\<close>

text \<open>
  An interface is identified by its name.  An address is an \<open>in_addr\<close> or an
  \<open>in6_addr\<close>; a callback and its argument are pointers, kept as numbers.
\<close>

record gatekeeper_if =
  if_name :: string

record net_config =
  front :: gatekeeper_if
  "back" :: gatekeeper_if
  back_iface_enabled :: bool

datatype ip_addr = In_addr u32 | In6_addr "128 word"

datatype cache_ref = Arp_cache | Nd_cache

datatype lls_req_ty = LLS_REQ_HOLD | LLS_REQ_PUT | LLS_REQ_ND

datatype lls_request =
    Lls_hold_req cache_ref nat nat nat ip_addr
  | Lls_put_req cache_ref nat ip_addr
  | Lls_nd_req rte_mbuf gatekeeper_if

section \<open>Observable effects\<close>

text \<open>
  Calls that leave the two source files are recorded, in program order, as events: the
  format string of an \<open>RTE_LOG\<close>, the arguments of \<open>encapsulate\<close>, the buffer given to
  \<open>rte_pktmbuf_free\<close>, the buffers given to \<open>rte_eth_tx_burst\<close>, the command given to
  \<open>mb_free_entry\<close>, the arguments of \<open>lls_req\<close>.  The value such a call returns is an
  argument of the model.
\<close>

datatype event =
    Log string
  | Encapsulate rte_mbuf u8
  | Pktmbuf_free rte_mbuf
  | Tx_burst "rte_mbuf list"
  | Mb_free_entry gk_cmd_entry
  | Lls_req lls_req_ty lls_request

section \<open>Flow entries\<close>

definition START_PRIORITY :: u8 where "START_PRIORITY = 38"
definition START_ALLOWANCE :: u8 where "START_ALLOWANCE = 8"
definition PRIORITY_GRANTED :: u8 where "PRIORITY_GRANTED = 1"
definition PRIORITY_RENEW_CAP :: u8 where "PRIORITY_RENEW_CAP = 2"
definition PRIORITY_MAX :: u8 where "PRIORITY_MAX = 63"
definition GK_CMD_BURST_SIZE :: nat where "GK_CMD_BURST_SIZE = 32"

record request_t =
  last_packet_seen_at :: u64
  last_priority :: u8
  allowance :: u8
  grantor_id :: c_int

record granted_t =
  cap_expire_at :: u64
  budget_renew_at :: u64
  tx_rate_kb_cycle :: c_int
  budget_byte :: c_int
  send_next_renewal_at :: u64
  renewal_step_cycle :: u64

record declined_t =
  expire_at :: u64

text \<open>
  \<open>struct flow_entry\<close> is a union discriminated by \<open>state\<close>.  The tag and the active
  member are one constructor; a selector applied to another constructor is an unspecified
  value, as reading an inactive member is in C.  (\<open>granted.grantor_id\<close> is neither
  written nor read by the code and is left out.)
\<close>

datatype flow_u =
    Request (request: request_t)
  | Granted (granted: granted_t)
  | Declined (declined: declined_t)

record flow_entry =
  flow :: ip_flow
  u :: flow_u

fun state_of :: "flow_u \<Rightarrow> gk_flow_state" where
  "state_of (Request _) = GK_REQUEST"
| "state_of (Granted _) = GK_GRANTED"
| "state_of (Declined _) = GK_DECLINED"

definition state :: "flow_entry \<Rightarrow> gk_flow_state" where
  "state fe = state_of (u fe)"

section \<open>Priority from the time between two packets\<close>

text \<open>
  \<open>__builtin_clzl\<close>: the number of zero bits above the most significant one bit,
  counted from bit 63 downwards.  C leaves the result at 0 undefined; here it is 64.
\<close>

fun clz_below :: "nat \<Rightarrow> u64 \<Rightarrow> nat" where
  "clz_below 0 w = 0"
| "clz_below (Suc n) w = (if bit w n then 0 else Suc (clz_below n w))"

definition builtin_clzl :: "u64 \<Rightarrow> nat" where
  "builtin_clzl w = clz_below 64 w"

text \<open>\<open>(8 * sizeof(uint64_t) - 1) - __builtin_clzl(delta_time)\<close>, converted to \<open>uint8_t\<close>.\<close>

definition integer_log_base_2 :: "u64 \<Rightarrow> u8" where
  "integer_log_base_2 delta_time = word_of_int (63 - int (builtin_clzl delta_time))"

definition priority_from_delta_time :: "timing \<Rightarrow> u64 \<Rightarrow> u64 \<Rightarrow> u8 \<times> event list" where
  "priority_from_delta_time tm present past =
     (if present < past then
        (0, [Log ''gk: the present time smaller than the past time!''])
      else
        (let delta_time = (present - past) * picosec_per_cycle tm in
         if delta_time < 1 then (0, [])
         else (integer_log_base_2 delta_time, [])))"

text \<open>
  \<open>initialize_flow_entry\<close> reads the time stamp counter; \<open>tsc\<close> is the value read.
\<close>

definition initialize_flow_entry :: "u64 \<Rightarrow> ip_flow \<Rightarrow> flow_entry" where
  "initialize_flow_entry tsc fl =
     \<lparr>flow = fl,
      u = Request \<lparr>last_packet_seen_at = tsc, last_priority = START_PRIORITY,
                   allowance = START_ALLOWANCE - 1, grantor_id = 0\<rparr>\<rparr>"

definition reinitialize_flow_entry :: "flow_entry \<Rightarrow> u64 \<Rightarrow> flow_entry" where
  "reinitialize_flow_entry fe now =
     fe\<lparr>u := Request \<lparr>last_packet_seen_at = now, last_priority = START_PRIORITY,
                       allowance = START_ALLOWANCE - 1, grantor_id = 0\<rparr>\<rparr>"

definition drop_packet :: "rte_mbuf \<Rightarrow> int \<times> event list" where
  "drop_packet pkt = (0, [Pktmbuf_free pkt])"

section \<open>The request path\<close>

text \<open>
  \<open>now\<close> is the value of \<open>rte_rdtsc()\<close> at the top of the function, \<open>enc_ret\<close>
  the value that \<open>encapsulate\<close> returns and \<open>pkt\<close> the buffer \<open>packet->pkt\<close>, the
  only field of the packet view that the function reads.  The result is the return code,
  the flow entry as the function leaves it, and the events in program order.
\<close>

definition gk_process_request ::
  "timing \<Rightarrow> u64 \<Rightarrow> int \<Rightarrow> flow_entry \<Rightarrow> rte_mbuf \<Rightarrow> int \<times> flow_entry \<times> event list" where
  "gk_process_request tm now enc_ret fe pkt =
     (let (priority, logs) =
            priority_from_delta_time tm now (last_packet_seen_at (request (u fe)));
          r = (request (u fe))\<lparr>last_packet_seen_at := now\<rparr>;
          (priority, r) =
            (if priority < last_priority r \<and> allowance r > 0
             then (last_priority r, r\<lparr>allowance := allowance r - 1\<rparr>)
             else (priority, r\<lparr>last_priority := priority,
                                allowance := START_ALLOWANCE - 1\<rparr>));
          priority = priority + 3;
          priority = (if priority > PRIORITY_MAX then PRIORITY_MAX else priority);
          ret = enc_ret
      in (if ret < 0 then ret else 0, fe\<lparr>u := Request r\<rparr>,
          logs @ [Encapsulate pkt priority]))"

section \<open>The granted and declined paths\<close>

definition cycle_from_second :: "timing \<Rightarrow> u64 \<Rightarrow> u64" where
  "cycle_from_second tm time = cycles_per_sec tm * time"

text \<open>
  \<open>now\<close> is the counter read at the top of \<open>gk_process_granted\<close>; \<open>now_req\<close> is the
  later read made by \<open>gk_process_request\<close> when the capability has expired.
  \<open>pkt->data_len\<close> is promoted to \<open>int\<close> for the comparison and the subtraction.
  \<open>tx_rate_kb_cycle * 1024\<close> is a product of two \<open>int\<close>s; it is taken modulo \<open>2^32\<close>
  where C leaves the overflow undefined.
\<close>

definition gk_process_granted ::
  "timing \<Rightarrow> u64 \<Rightarrow> u64 \<Rightarrow> int \<Rightarrow> flow_entry \<Rightarrow> rte_mbuf \<Rightarrow> int \<times> flow_entry \<times> event list" where
  "gk_process_granted tm now now_req enc_ret fe pkt =
     (let g = granted (u fe) in
      if now \<ge> cap_expire_at g then
        gk_process_request tm now_req enc_ret (reinitialize_flow_entry fe now) pkt
      else
        (let g = (if now \<ge> budget_renew_at g
                  then g\<lparr>budget_renew_at := now + cycle_from_second tm 1,
                         budget_byte := tx_rate_kb_cycle g * 1024\<rparr>
                  else g)
         in if uint (data_len pkt) > sint (budget_byte g) then
              (let (ret, evs) = drop_packet pkt in (ret, fe\<lparr>u := Granted g\<rparr>, evs))
            else
              (let g = g\<lparr>budget_byte := budget_byte g - ucast (data_len pkt)\<rparr>;
                   renew_cap = (now \<ge> send_next_renewal_at g);
                   (g, priority) =
                     (if renew_cap
                      then (g\<lparr>send_next_renewal_at := now + renewal_step_cycle g\<rparr>,
                            PRIORITY_RENEW_CAP)
                      else (g, PRIORITY_GRANTED));
                   ret = enc_ret
               in (if ret < 0 then ret else 0, fe\<lparr>u := Granted g\<rparr>,
                   [Encapsulate pkt priority]))))"

definition gk_process_declined ::
  "timing \<Rightarrow> u64 \<Rightarrow> u64 \<Rightarrow> int \<Rightarrow> flow_entry \<Rightarrow> rte_mbuf \<Rightarrow> int \<times> flow_entry \<times> event list" where
  "gk_process_declined tm now now_req enc_ret fe pkt =
     (if now \<ge> expire_at (declined (u fe)) then
        gk_process_request tm now_req enc_ret (reinitialize_flow_entry fe now) pkt
      else
        (let (ret, evs) = drop_packet pkt in (ret, fe, evs)))"

text \<open>
  The \<open>switch (fe->state)\<close> of the packet loop in \<open>gk_proc\<close>.  The tag of a flow entry
  is one of the three states, so the \<open>default\<close> branch of the C code has no counterpart.
\<close>

definition gk_process_flow_entry ::
  "timing \<Rightarrow> u64 \<Rightarrow> u64 \<Rightarrow> int \<Rightarrow> flow_entry \<Rightarrow> rte_mbuf \<Rightarrow> int \<times> flow_entry \<times> event list" where
  "gk_process_flow_entry tm now now_req enc_ret fe pkt =
     (case state fe of
        GK_REQUEST \<Rightarrow> gk_process_request tm now enc_ret fe pkt
      | GK_GRANTED \<Rightarrow> gk_process_granted tm now now_req enc_ret fe pkt
      | GK_DECLINED \<Rightarrow> gk_process_declined tm now now_req enc_ret fe pkt)"

section \<open>Policies\<close>

text \<open>
  The \<open>switch (policy->state)\<close> of \<open>add_ggu_policy\<close>, applied to the entry that the
  lookup or the insertion has selected; \<open>now\<close> is the counter read at the top of
  \<open>add_ggu_policy\<close>.
\<close>

definition set_policy :: "timing \<Rightarrow> u64 \<Rightarrow> ggu_policy \<Rightarrow> flow_entry \<Rightarrow> flow_entry \<times> event list" where
  "set_policy tm now policy fe =
     (case pol_state policy of
        GK_GRANTED \<Rightarrow>
          (let pg = params_granted (params policy);
               tx_rate = (ucast (tx_rate_kb_sec pg) :: c_int)
           in (fe\<lparr>u := Granted
                 \<lparr>cap_expire_at = now + ucast (cap_expire_sec pg) * cycles_per_sec tm,
                  budget_renew_at = now + cycle_from_second tm 1,
                  tx_rate_kb_cycle = tx_rate,
                  budget_byte = tx_rate * 1024,
                  send_next_renewal_at = now + ucast (next_renewal_ms pg) * cycles_per_ms tm,
                  renewal_step_cycle = ucast (renewal_step_ms pg) * cycles_per_ms tm\<rparr>\<rparr>,
               []))
      | GK_DECLINED \<Rightarrow>
          (fe\<lparr>u := Declined
              \<lparr>expire_at = now + ucast (expire_sec (params_declined (params policy)))
                                   * cycles_per_sec tm\<rparr>\<rparr>,
           [])
      | GK_REQUEST \<Rightarrow> (fe, [Log ''gk: unknown flow state %u!'']))"

section \<open>The LLS entry points\<close>

text \<open>
  \<open>lls_conf\<close> is a global of \<open>lls/main.c\<close>; the functions take it as an argument.  Each
  cache carries the function pointer \<open>iface_enabled\<close>, which tells whether the service runs
  on an interface.
\<close>

record lls_cache =
  cache_name :: string
  iface_enabled :: "net_config \<Rightarrow> gatekeeper_if \<Rightarrow> bool"

record lls_config =
  net :: net_config
  arp_cache :: lls_cache
  nd_cache :: lls_cache

definition arp_enabled :: "lls_config \<Rightarrow> bool" where
  "arp_enabled lls_conf =
     (iface_enabled (arp_cache lls_conf) (net lls_conf) (front (net lls_conf)) \<or>
      iface_enabled (arp_cache lls_conf) (net lls_conf) (back (net lls_conf)))"

definition nd_enabled :: "lls_config \<Rightarrow> bool" where
  "nd_enabled lls_conf =
     (iface_enabled (nd_cache lls_conf) (net lls_conf) (front (net lls_conf)) \<or>
      iface_enabled (nd_cache lls_conf) (net lls_conf) (back (net lls_conf)))"

text \<open>
  \<open>lls_req\<close> puts a request into the mailbox of the LLS block; \<open>req_ret\<close> is the value
  it returns.
\<close>

definition hold_arp ::
  "lls_config \<Rightarrow> int \<Rightarrow> nat \<Rightarrow> nat \<Rightarrow> u32 \<Rightarrow> nat \<Rightarrow> int \<times> event list" where
  "hold_arp lls_conf req_ret cb arg ip_be lcore_id =
     (if arp_enabled lls_conf then
        (req_ret, [Lls_req LLS_REQ_HOLD (Lls_hold_req Arp_cache cb arg lcore_id (In_addr ip_be))])
      else
        (- 1, [Log ''lls: lcore %u called %s but ARP service is not enabled'']))"

definition put_arp :: "lls_config \<Rightarrow> int \<Rightarrow> u32 \<Rightarrow> nat \<Rightarrow> int \<times> event list" where
  "put_arp lls_conf req_ret ip_be lcore_id =
     (if arp_enabled lls_conf then
        (req_ret, [Lls_req LLS_REQ_PUT (Lls_put_req Arp_cache lcore_id (In_addr ip_be))])
      else
        (- 1, [Log ''lls: lcore %u called %s but ARP service is not enabled'']))"

definition hold_nd ::
  "lls_config \<Rightarrow> int \<Rightarrow> nat \<Rightarrow> nat \<Rightarrow> 128 word \<Rightarrow> nat \<Rightarrow> int \<times> event list" where
  "hold_nd lls_conf req_ret cb arg ip_be lcore_id =
     (if nd_enabled lls_conf then
        (req_ret, [Lls_req LLS_REQ_HOLD (Lls_hold_req Nd_cache cb arg lcore_id (In6_addr ip_be))])
      else
        (- 1, [Log ''lls: lcore %u called %s but ND service is not enabled'']))"

definition put_nd :: "lls_config \<Rightarrow> int \<Rightarrow> 128 word \<Rightarrow> nat \<Rightarrow> int \<times> event list" where
  "put_nd lls_conf req_ret ip_be lcore_id =
     (if nd_enabled lls_conf then
        (req_ret, [Lls_req LLS_REQ_PUT (Lls_put_req Nd_cache lcore_id (In6_addr ip_be))])
      else
        (- 1, [Log ''lls: lcore %u called %s but ND service is not enabled'']))"

definition submit_nd :: "lls_config \<Rightarrow> int \<Rightarrow> rte_mbuf \<Rightarrow> gatekeeper_if \<Rightarrow> int \<times> event list" where
  "submit_nd lls_conf req_ret pkt iface =
     (if nd_enabled lls_conf then
        (req_ret, [Lls_req LLS_REQ_ND (Lls_nd_req pkt iface)])
      else
        (- 1, [Log ''lls: %s invoked but ND service is not enabled'']))"

section \<open>The flow table of a GK block\<close>

text \<open>
  Modelled from the spec: \<open>rte_hash\<close> belongs to the packet library, outside of the
  repository, and is the keyed table of the flow table's contract: at most \<open>entries\<close>
  keys, each with a slot index below \<open>entries\<close> that no other key has.  A lookup returns
  the slot of the key or a negative value; an insertion returns the slot of a key that is
  present, else takes the least free slot, else returns a negative value.  The precomputed
  hash value that the \<open>_with_hash\<close> functions receive does not change the result and is
  not an argument.
\<close>

record rte_hash =
  entries :: nat
  slots :: "(ip_flow \<times> nat) list"

definition rte_hash_lookup_with_hash :: "rte_hash \<Rightarrow> ip_flow \<Rightarrow> int" where
  "rte_hash_lookup_with_hash h key =
     (case map_of (slots h) key of Some i \<Rightarrow> int i | None \<Rightarrow> - 2)"

definition rte_hash_add_key_with_hash :: "rte_hash \<Rightarrow> ip_flow \<Rightarrow> int \<times> rte_hash" where
  "rte_hash_add_key_with_hash h key =
     (case map_of (slots h) key of
        Some i \<Rightarrow> (int i, h)
      | None \<Rightarrow>
          (case find (\<lambda>i. i \<notin> snd ` set (slots h)) [0..<entries h] of
             Some i \<Rightarrow> (int i, h\<lparr>slots := (key, i) # slots h\<rparr>)
           | None \<Rightarrow> (- 28, h)))"

text \<open>
  A GK instance: the hash table, the dense array of flow entries indexed by slot, the two
  queue identifiers and the mailbox.

  Modelled from the spec: the mailbox, whose library is not in the sources, is a bounded
  queue; \<open>mb\<close> is the list of the commands enqueued and not yet dequeued, oldest first,
  and \<open>dequeue_burst(max)\<close> takes up to \<open>max\<close> commands from its head.
\<close>

record gk_instance =
  ip_flow_hash_table :: rte_hash
  ip_flow_entry_table :: "nat \<Rightarrow> flow_entry"
  rx_queue_front :: u16
  tx_queue_back :: u16
  mb :: "gk_cmd_entry list"

text \<open>
  \<open>now\<close> is the counter read at the top of \<open>add_ggu_policy\<close> and \<open>tsc\<close> the one read by
  \<open>initialize_flow_entry\<close> when the flow is new.
\<close>

definition add_ggu_policy ::
  "timing \<Rightarrow> u64 \<Rightarrow> u64 \<Rightarrow> ggu_policy \<Rightarrow> gk_instance \<Rightarrow> gk_instance \<times> event list" where
  "add_ggu_policy tm now tsc policy instance =
     (let ret = rte_hash_lookup_with_hash (ip_flow_hash_table instance) (pol_flow policy) in
      if ret < 0 then
        (let (ret, h) = rte_hash_add_key_with_hash (ip_flow_hash_table instance)
                          (pol_flow policy);
             instance = instance\<lparr>ip_flow_hash_table := h\<rparr>
         in if ret < 0 then
              (instance, [Log ''The GK block failed to add new key to hash table!''])
            else
              (let fe = initialize_flow_entry tsc (pol_flow policy);
                   (fe, evs) = set_policy tm now policy fe
               in (instance\<lparr>ip_flow_entry_table :=
                              (ip_flow_entry_table instance)(nat ret := fe)\<rparr>, evs)))
      else
        (let fe = ip_flow_entry_table instance (nat ret);
             (fe, evs) = set_policy tm now policy fe
         in (instance\<lparr>ip_flow_entry_table :=
                        (ip_flow_entry_table instance)(nat ret := fe)\<rparr>, evs)))"

definition process_gk_cmd ::
  "timing \<Rightarrow> u64 \<Rightarrow> u64 \<Rightarrow> gk_cmd_entry \<Rightarrow> gk_instance \<Rightarrow> gk_instance \<times> event list" where
  "process_gk_cmd tm now tsc entry instance =
     (case op entry of
        GGU_POLICY_ADD \<Rightarrow> add_ggu_policy tm now tsc (ggu entry) instance
      | GK_CMD_OTHER _ \<Rightarrow> (instance, [Log ''gk: unknown command operation %u'']))"

section \<open>One iteration of the GK loop\<close>

text \<open>
  What the environment supplies while one received packet is handled: the buffer, the flow
  that \<open>extract_packet_info\<close> finds (\<open>None\<close> when it returns a negative value), the
  answer of \<open>pkt_is_nd\<close>, the value \<open>lls_req\<close> returns, the three reads of the time stamp
  counter (in \<open>initialize_flow_entry\<close>, at the top of the state function, in a nested
  \<open>gk_process_request\<close>) and the value \<open>encapsulate\<close> returns.
\<close>

record rx_input =
  rx_pkt :: rte_mbuf
  rx_flow :: "ip_flow option"
  rx_is_nd :: bool
  rx_req_ret :: int
  rx_tsc :: u64
  rx_now :: u64
  rx_now_req :: u64
  rx_enc_ret :: int

text \<open>
  The body of the loop over the received packets.  The state is the instance, the array
  \<open>tx_bufs\<close> filled so far, and the events so far.
\<close>

definition gk_proc_packet ::
  "timing \<Rightarrow> lls_config \<Rightarrow> net_config \<Rightarrow> rx_input \<Rightarrow>
   gk_instance \<times> rte_mbuf list \<times> event list \<Rightarrow> gk_instance \<times> rte_mbuf list \<times> event list" where
  "gk_proc_packet tm lls_conf gk_net inp st =
     (let (instance, tx_bufs, evs) = st; pkt = rx_pkt inp in
      case rx_flow inp of
        None \<Rightarrow> (instance, tx_bufs, evs @ snd (drop_packet pkt))
      | Some fl \<Rightarrow>
          if rx_is_nd inp then
            (let (ret, evs_nd) = submit_nd lls_conf (rx_req_ret inp) pkt (front gk_net) in
             if ret = - 1 then (instance, tx_bufs, evs @ evs_nd @ snd (drop_packet pkt))
             else (instance, tx_bufs, evs @ evs_nd))
          else
            (let ret = rte_hash_lookup_with_hash (ip_flow_hash_table instance) fl;
                 (ret, instance, fe) =
                   (if ret < 0 then
                      (let (ret, h) = rte_hash_add_key_with_hash
                                        (ip_flow_hash_table instance) fl
                       in (ret, instance\<lparr>ip_flow_hash_table := h\<rparr>,
                           initialize_flow_entry (rx_tsc inp) fl))
                    else (ret, instance, ip_flow_entry_table instance (nat ret)))
             in if ret < 0 then
                  (instance, tx_bufs,
                   evs @ [Log ''The GK block failed to add new key to hash table!'',
                          Pktmbuf_free pkt])
                else
                  (let (r, fe, evs_fe) =
                         gk_process_flow_entry tm (rx_now inp) (rx_now_req inp)
                           (rx_enc_ret inp) fe pkt;
                       instance = instance\<lparr>ip_flow_entry_table :=
                                     (ip_flow_entry_table instance)(nat ret := fe)\<rparr>
                   in if r < 0 then (instance, tx_bufs, evs @ evs_fe @ [Pktmbuf_free pkt])
                      else (instance, tx_bufs @ [pkt], evs @ evs_fe))))"

text \<open>
  The loop over the dequeued commands: \<open>process_gk_cmd\<close>, then \<open>mb_free_entry\<close>.
  \<open>clock i\<close> holds the two counter reads made while command \<open>i\<close> is processed.
\<close>

fun gk_proc_cmds ::
  "timing \<Rightarrow> (nat \<Rightarrow> u64 \<times> u64) \<Rightarrow> nat \<Rightarrow> gk_cmd_entry list \<Rightarrow> gk_instance \<Rightarrow>
   gk_instance \<times> event list" where
  "gk_proc_cmds tm clock i [] instance = (instance, [])"
| "gk_proc_cmds tm clock i (c # cs) instance =
     (let (instance, evs) = process_gk_cmd tm (fst (clock i)) (snd (clock i)) c instance;
          (instance, evs') = gk_proc_cmds tm clock (Suc i) cs instance
      in (instance, evs @ [Mb_free_entry c] @ evs'))"

text \<open>
  One pass through the body of \<open>while (likely(!exiting))\<close> in \<open>gk_proc\<close>.  \<open>rx\<close> is the
  burst that \<open>rte_eth_rx_burst\<close> delivers, \<open>num_tx_succ\<close> the value that
  \<open>rte_eth_tx_burst\<close> returns, and \<open>mb instance\<close> the content of the mailbox when
  \<open>mb_dequeue_burst\<close> runs.
\<close>

definition gk_proc_iteration ::
  "timing \<Rightarrow> lls_config \<Rightarrow> net_config \<Rightarrow> rx_input list \<Rightarrow> nat \<Rightarrow> (nat \<Rightarrow> u64 \<times> u64) \<Rightarrow>
   gk_instance \<Rightarrow> gk_instance \<times> event list" where
  "gk_proc_iteration tm lls_conf gk_net rx num_tx_succ clock instance =
     (if length rx = 0 then (instance, [])
      else
        (let (instance, tx_bufs, evs) =
               fold (gk_proc_packet tm lls_conf gk_net) rx (instance, [], []);
             evs = evs @ [Tx_burst tx_bufs] @ map Pktmbuf_free (drop num_tx_succ tx_bufs);
             gk_cmds = take GK_CMD_BURST_SIZE (mb instance);
             instance = instance\<lparr>mb := drop GK_CMD_BURST_SIZE (mb instance)\<rparr>;
             (instance, evs_cmd) = gk_proc_cmds tm clock 0 gk_cmds instance
         in (instance, evs @ evs_cmd)))"

section \<open>Finding the mailbox of the GK block that owns a flow\<close>

text \<open>
  \<open>reta_conf idx shift\<close> is \<open>reta_conf[idx].reta[shift]\<close>; \<open>RTE_RETA_GROUP_SIZE\<close> is the
  library's group size of 64.  The hash function \<open>rss_ip_flow_hf\<close> is not in the sources
  and is an argument.
\<close>

definition RTE_RETA_GROUP_SIZE :: u32 where "RTE_RETA_GROUP_SIZE = 64"

record gatekeeper_rss_config =
  reta_size :: u16
  reta_conf :: "nat \<Rightarrow> nat \<Rightarrow> u16"

record gk_config =
  num_lcores :: int
  instances :: "gk_instance list"
  rss_conf :: gatekeeper_rss_config

text \<open>
  A pointer to a mailbox is null or \<open>&gk_conf->instances[i].mb\<close> for an index \<open>i\<close>, which
  the pointer arithmetic does not confine to the array.
\<close>

datatype mailbox_ptr = Null_mailbox | Instance_mb int

datatype panic = Rte_panic string

text \<open>
  The search loop, entered with \<open>i\<close>; the result is the final \<open>block_idx\<close>.  The array
  \<open>instances\<close> is allocated with \<open>num_lcores\<close> elements, so the loop reads inside it.
\<close>

function gk_block_search :: "gk_config \<Rightarrow> u16 \<Rightarrow> nat \<Rightarrow> int" where
  "gk_block_search gk_conf queue_id i =
     (if int i < num_lcores gk_conf then
        (if rx_queue_front (instances gk_conf ! i) = queue_id then int i
         else gk_block_search gk_conf queue_id (Suc i))
      else - 1)"
  by pat_completeness auto
termination
  by (relation "measure (\<lambda>(gk_conf, queue_id, i). nat (num_lcores gk_conf) - i)") auto

declare gk_block_search.simps [simp del]

definition get_responsible_gk_mailbox ::
  "(ip_flow \<Rightarrow> u32) \<Rightarrow> ip_flow \<Rightarrow> gk_config \<Rightarrow> panic + (mailbox_ptr \<times> event list)" where
  "get_responsible_gk_mailbox rss_ip_flow_hf fl gk_conf =
     (let rss_hash_val = rss_ip_flow_hf fl in
      if reta_size (rss_conf gk_conf) \<noteq> 128 then
        Inl (Rte_panic ''gk_conf->rss_conf.reta_size == 128'')
      else
        (let rss_hash_val = rss_hash_val AND 127;
             idx = rss_hash_val div RTE_RETA_GROUP_SIZE;
             shift = rss_hash_val mod RTE_RETA_GROUP_SIZE;
             queue_id = reta_conf (rss_conf gk_conf) (unat idx) (unat shift);
             block_idx = gk_block_search gk_conf queue_id 0;
             evs = (if block_idx = - 1
                    then [Log ''gk: wrong RSS configuration for GK blocks!''] else [])
         in Inr (Instance_mb block_idx, evs)))"

section \<open>Flow entries that the code can produce\<close>

text \<open>
  A flow entry is created by \<open>initialize_flow_entry\<close> and is changed afterwards only by
  \<open>reinitialize_flow_entry\<close>, by the state functions of the packet path and by the
  installation of a policy.
\<close>

inductive reachable_entry :: "timing \<Rightarrow> flow_entry \<Rightarrow> bool" for tm :: timing where
  created: "reachable_entry tm (initialize_flow_entry tsc fl)"
| reinitialized: "reachable_entry tm fe \<Longrightarrow> reachable_entry tm (reinitialize_flow_entry fe now)"
| packet: "reachable_entry tm fe \<Longrightarrow>
           gk_process_flow_entry tm now now_req enc_ret fe pkt = (ret, fe', evs) \<Longrightarrow>
           reachable_entry tm fe'"
| policy: "reachable_entry tm fe \<Longrightarrow> set_policy tm now pol fe = (fe', evs) \<Longrightarrow>
           reachable_entry tm fe'"

text \<open>
  Lines 231 to 233 of \<open>gk_process_request\<close>, the adjustment of a priority for the DSCP
  field, as a function of the priority.
\<close>

definition request_dscp :: "u8 \<Rightarrow> u8" where
  "request_dscp p = (if p + 3 > PRIORITY_MAX then PRIORITY_MAX else p + 3)"

text \<open>The events that are a request to the LLS block, and those that free a command.\<close>

fun is_lls_req :: "event \<Rightarrow> bool" where
  "is_lls_req (Lls_req _ _) = True"
| "is_lls_req _ = False"

fun is_mb_free_entry :: "event \<Rightarrow> bool" where
  "is_mb_free_entry (Mb_free_entry _) = True"
| "is_mb_free_entry _ = False"

text \<open>
  Lines 271 to 274 of \<open>gk_process_granted\<close>, the renewal of the byte budget, as a
  function of the granted block.
\<close>

definition renew_budget :: "timing \<Rightarrow> u64 \<Rightarrow> granted_t \<Rightarrow> granted_t" where
  "renew_budget tm now g =
     (if budget_renew_at g \<le> now
      then g\<lparr>budget_renew_at := now + cycle_from_second tm 1,
             budget_byte := tx_rate_kb_cycle g * 1024\<rparr>
      else g)"

section \<open>The invariant of a flow entry\<close>

text \<open>
  In the request state the last priority is at most 63 and the allowance at most 7.  In
  the granted state the byte budget never exceeds \<open>tx_rate_kb_cycle * 1024\<close> (the 32-bit
  product) and is not negative when that product is not negative.
\<close>

fun flow_u_inv :: "flow_u \<Rightarrow> bool" where
  "flow_u_inv (Request r) = (last_priority r \<le> 63 \<and> allowance r \<le> 7)"
| "flow_u_inv (Granted g) =
     (sint (budget_byte g) \<le> sint (tx_rate_kb_cycle g * 1024) \<and>
      (0 \<le> sint (tx_rate_kb_cycle g * 1024) \<longrightarrow> 0 \<le> sint (budget_byte g)))"
| "flow_u_inv (Declined d) = True"

section \<open>Concrete inputs\<close>

text \<open>A clock of 1 GHz, a packet of 2000 bytes and flow entries in the request state.\<close>

definition ex_timing :: timing where
  "ex_timing = \<lparr>cycles_per_sec = 1000000000, cycles_per_ms = 1000000, picosec_per_cycle = 1000\<rparr>"

definition ex_pkt :: rte_mbuf where
  "ex_pkt = \<lparr>mbuf_id = 1, data_len = 2000, hash_rss = 0\<rparr>"

definition ex_request_entry :: "u64 \<Rightarrow> u8 \<Rightarrow> u8 \<Rightarrow> flow_entry" where
  "ex_request_entry seen prio allow =
     \<lparr>flow = 7, u = Request \<lparr>last_packet_seen_at = seen, last_priority = prio,
                              allowance = allow, grantor_id = 0\<rparr>\<rparr>"

text \<open>A granted policy and the entry it installs at time 0; a declined entry.\<close>

definition ex_grant :: "u32 \<Rightarrow> ggu_policy" where
  "ex_grant rate =
     \<lparr>pol_state = GK_GRANTED, pol_flow = 7,
      params = Params_granted \<lparr>tx_rate_kb_sec = rate, cap_expire_sec = 60,
                               next_renewal_ms = 500, renewal_step_ms = 500\<rparr>\<rparr>"

definition ex_granted_entry :: "c_int \<Rightarrow> c_int \<Rightarrow> flow_entry" where
  "ex_granted_entry rate budget =
     \<lparr>flow = 7,
      u = Granted \<lparr>cap_expire_at = 60000000000, budget_renew_at = 1000000000,
                   tx_rate_kb_cycle = rate, budget_byte = budget,
                   send_next_renewal_at = 500000000, renewal_step_cycle = 500000000\<rparr>\<rparr>"

definition ex_declined_entry :: "u64 \<Rightarrow> flow_entry" where
  "ex_declined_entry t = \<lparr>flow = 7, u = Declined \<lparr>expire_at = t\<rparr>\<rparr>"

text \<open>Interfaces and LLS configurations.\<close>

definition ex_if_front :: gatekeeper_if where "ex_if_front = \<lparr>if_name = ''front''\<rparr>"
definition ex_if_back :: gatekeeper_if where "ex_if_back = \<lparr>if_name = ''back''\<rparr>"

definition ex_net :: net_config where
  "ex_net = \<lparr>front = ex_if_front, back = ex_if_back, back_iface_enabled = True\<rparr>"

text \<open>A configuration in which ARP runs on the front interface and ND on no interface.\<close>

definition ex_lls_conf :: lls_config where
  "ex_lls_conf =
     \<lparr>net = ex_net,
      arp_cache = \<lparr>cache_name = ''arp'', iface_enabled = (\<lambda>n i. if_name i = ''front'')\<rparr>,
      nd_cache = \<lparr>cache_name = ''nd'', iface_enabled = (\<lambda>n i. False)\<rparr>\<rparr>"

text \<open>A configuration in which neither service runs.\<close>

definition ex_lls_off :: lls_config where
  "ex_lls_off =
     \<lparr>net = ex_net,
      arp_cache = \<lparr>cache_name = ''arp'', iface_enabled = (\<lambda>n i. False)\<rparr>,
      nd_cache = \<lparr>cache_name = ''nd'', iface_enabled = (\<lambda>n i. False)\<rparr>\<rparr>"

text \<open>An instance with an empty flow table of four slots.\<close>

definition ex_instance :: "u16 \<Rightarrow> gk_instance" where
  "ex_instance q =
     \<lparr>ip_flow_hash_table = \<lparr>entries = 4, slots = []\<rparr>,
      ip_flow_entry_table = (\<lambda>i. \<lparr>flow = 0, u = Declined \<lparr>expire_at = 0\<rparr>\<rparr>),
      rx_queue_front = q, tx_queue_back = q, mb = []\<rparr>"

text \<open>
  Two GK blocks on the receive queues 0 and 1, and a redirection table that sends every
  hash value to queue 5.
\<close>

definition ex_gk_conf :: gk_config where
  "ex_gk_conf =
     \<lparr>num_lcores = 2, instances = [ex_instance 0, ex_instance 1],
      rss_conf = \<lparr>reta_size = 128, reta_conf = (\<lambda>idx shift. 5)\<rparr>\<rparr>"

text \<open>A declined policy of two seconds, commands that carry it, and a received packet.\<close>

definition ex_decline :: ggu_policy where
  "ex_decline =
     \<lparr>pol_state = GK_DECLINED, pol_flow = 7, params = Params_declined \<lparr>expire_sec = 2\<rparr>\<rparr>"

definition ex_cmd :: "ip_flow \<Rightarrow> gk_cmd_entry" where
  "ex_cmd fl = \<lparr>op = GGU_POLICY_ADD, ggu = ex_decline\<lparr>pol_flow := fl\<rparr>\<rparr>"

definition ex_rx :: rx_input where
  "ex_rx = \<lparr>rx_pkt = ex_pkt, rx_flow = Some 7, rx_is_nd = False, rx_req_ret = 0,
            rx_tsc = 0, rx_now = 0, rx_now_req = 0, rx_enc_ret = 0\<rparr>"

text \<open>
  An instance whose table holds flow 7 in slot 0 with a given entry, and a packet of a
  given length.
\<close>

definition ex_instance_with :: "flow_entry \<Rightarrow> gk_instance" where
  "ex_instance_with fe =
     \<lparr>ip_flow_hash_table = \<lparr>entries = 4, slots = [(7, 0)]\<rparr>,
      ip_flow_entry_table = (\<lambda>i. fe),
      rx_queue_front = 0, tx_queue_back = 0, mb = []\<rparr>"

definition ex_pkt_len :: "u16 \<Rightarrow> rte_mbuf" where
  "ex_pkt_len n = \<lparr>mbuf_id = 2, data_len = n, hash_rss = 0\<rparr>"

section \<open>Properties of the integer logarithm\<close>

lemma clz_below_le: "clz_below n w \<le> n"
  by (induction n) auto

lemma take_bit_Suc_unset: "\<not> bit w n \<Longrightarrow> take_bit (Suc n) w = take_bit n w" for w :: u64
  by (rule bit_eqI) (auto simp: bit_take_bit_iff less_Suc_eq)

lemma bit_nat_le: "bit m n \<Longrightarrow> 2 ^ n \<le> m" for m :: nat
proof (rule ccontr)
  assume b: "bit m n" and "\<not> 2 ^ n \<le> m"
  then have "m div 2 ^ n = 0" by simp
  with b show False by (simp add: bit_iff_odd)
qed

lemma bit_le_unat: "bit w n \<Longrightarrow> 2 ^ n \<le> unat w" for w :: u64
  by (rule bit_nat_le) (simp add: bit_unsigned_iff)

lemma clz_below_upper: "unat (take_bit n w) < 2 ^ (n - clz_below n w)"
proof (induction n)
  case 0
  then show ?case by simp
next
  case (Suc n)
  show ?case
  proof (cases "bit w n")
    case True
    have "unat (take_bit (Suc n) w) < 2 ^ Suc n"
      by (metis unsigned_take_bit_eq take_bit_nat_less_exp)
    with True show ?thesis by simp
  next
    case False
    with Suc show ?thesis
      using clz_below_le [of n w] by (simp add: Suc_diff_le take_bit_Suc_unset)
  qed
qed

lemma clz_below_lower:
  "take_bit n w \<noteq> 0 \<Longrightarrow> 2 ^ (n - 1 - clz_below n w) \<le> unat (take_bit n w)"
proof (induction n)
  case 0
  then show ?case by simp
next
  case (Suc n)
  show ?case
  proof (cases "bit w n")
    case True
    have "bit (take_bit (Suc n) w) n" using True
      by (simp add: bit_take_bit_iff)
    then have "2 ^ n \<le> unat (take_bit (Suc n) w)"
      by (rule bit_le_unat)
    with True show ?thesis by simp
  next
    case False
    then have eq: "take_bit (Suc n) w = take_bit n w"
      by (rule take_bit_Suc_unset)
    with Suc.prems have "take_bit n w \<noteq> 0" by simp
    from Suc.IH [OF this] eq False show ?thesis
      using clz_below_le [of n w] by (simp add: Suc_diff_le)
  qed
qed

lemma builtin_clzl_bounds:
  assumes "d \<noteq> 0"
  shows "builtin_clzl d \<le> 63"
    and "2 ^ (63 - builtin_clzl d) \<le> unat d"
    and "unat d < 2 ^ (64 - builtin_clzl d)"
proof -
  have tb: "take_bit 64 d = d" using take_bit_length_eq [of d] by simp
  from clz_below_upper [of 64 d] show up: "unat d < 2 ^ (64 - builtin_clzl d)"
    by (simp only: builtin_clzl_def tb)
  from clz_below_lower [of 64 d] assms show "2 ^ (63 - builtin_clzl d) \<le> unat d"
    by (simp only: builtin_clzl_def tb) simp
  show "builtin_clzl d \<le> 63"
  proof (rule ccontr)
    assume "\<not> builtin_clzl d \<le> 63"
    with up have "unat d < 1" by simp
    with assms show False by (simp add: unat_eq_0)
  qed
qed

lemma integer_log_base_2_unat:
  assumes le: "builtin_clzl d \<le> 63"
  shows "unat (integer_log_base_2 d) = 63 - builtin_clzl d"
proof -
  define n where "n = 63 - builtin_clzl d"
  have "(63 :: int) - int (builtin_clzl d) = int n"
    using le by (simp add: n_def)
  then have "integer_log_base_2 d = (of_nat n :: u8)"
    by (simp only: integer_log_base_2_def of_int_of_nat_eq)
  moreover have "n < 256" by (simp add: n_def)
  then have "unat (of_nat n :: u8) = n"
    by (simp add: unsigned_of_nat take_bit_nat_eq_self)
  ultimately show ?thesis by (simp only: n_def)
qed

lemma integer_log_base_2_floor:
  assumes "d \<noteq> 0"
  shows "2 ^ unat (integer_log_base_2 d) \<le> unat d"
    and "unat d < 2 ^ Suc (unat (integer_log_base_2 d))"
    and "integer_log_base_2 d \<le> 63"
proof -
  note b = builtin_clzl_bounds [OF assms]
  note u = integer_log_base_2_unat [OF b(1)]
  from b(2) show "2 ^ unat (integer_log_base_2 d) \<le> unat d" by (simp add: u)
  from b(1) have "Suc (63 - builtin_clzl d) = 64 - builtin_clzl d" by simp
  with b(3) show "unat d < 2 ^ Suc (unat (integer_log_base_2 d))" by (simp only: u)
  have "unat (integer_log_base_2 d) \<le> 63" by (simp add: u)
  then show "integer_log_base_2 d \<le> 63" by (simp add: word_le_nat_alt)
qed


lemma clz_below_numeral:
  "clz_below (numeral k) w =
     (if bit w (pred_numeral k) then 0 else Suc (clz_below (pred_numeral k) w))"
  by (simp add: numeral_eq_Suc)

lemma priority_from_delta_time_le:
  "fst (priority_from_delta_time tm present past) \<le> 63"
proof -
  have "d \<noteq> 0 \<Longrightarrow> integer_log_base_2 d \<le> 63" for d
    by (rule integer_log_base_2_floor)
  then show ?thesis
    by (simp add: priority_from_delta_time_def Let_def word_less_1)
qed


lemma gk_process_request_unfold:
  "gk_process_request tm now enc_ret fe pkt =
     (let r0 = request (u fe);
          p = fst (priority_from_delta_time tm now (last_packet_seen_at r0));
          logs = snd (priority_from_delta_time tm now (last_packet_seen_at r0));
          keep = (p < last_priority r0 \<and> allowance r0 > 0)
      in (if enc_ret < 0 then enc_ret else 0,
          fe\<lparr>u := Request (if keep
                then r0\<lparr>last_packet_seen_at := now, allowance := allowance r0 - 1\<rparr>
                else r0\<lparr>last_packet_seen_at := now, last_priority := p,
                        allowance := START_ALLOWANCE - 1\<rparr>)\<rparr>,
          logs @ [Encapsulate pkt (request_dscp (if keep then last_priority r0 else p))]))"
  by (simp add: gk_process_request_def request_dscp_def Let_def split_beta)


lemma priority_from_delta_time_snd:
  "snd (priority_from_delta_time tm present past) =
     (if present < past then [Log ''gk: the present time smaller than the past time!'']
      else [])"
  by (simp add: priority_from_delta_time_def Let_def)


lemma gk_process_request_results:
  assumes "gk_process_request tm now enc_ret fe pkt = (ret, fe', evs)"
  defines "r0 \<equiv> request (u fe)"
  defines "p \<equiv> fst (priority_from_delta_time tm now (last_packet_seen_at r0))"
  defines "keep \<equiv> p < last_priority r0 \<and> allowance r0 > 0"
  shows "ret = (if enc_ret < 0 then enc_ret else 0)"
    and "fe' = fe\<lparr>u := Request (if keep
                then r0\<lparr>last_packet_seen_at := now, allowance := allowance r0 - 1\<rparr>
                else r0\<lparr>last_packet_seen_at := now, last_priority := p,
                        allowance := START_ALLOWANCE - 1\<rparr>)\<rparr>"
    and "evs = snd (priority_from_delta_time tm now (last_packet_seen_at r0)) @
               [Encapsulate pkt (request_dscp (if keep then last_priority r0 else p))]"
  using assms(1) [symmetric]
  by (simp_all add: gk_process_request_unfold Let_def r0_def p_def keep_def)

section \<open>Arithmetic of the byte budget\<close>

lemma signed_take_bit_31_self:
  "- 2147483648 \<le> k \<Longrightarrow> k < 2147483648 \<Longrightarrow> signed_take_bit 31 k = k" for k :: int
  by (rule signed_take_bit_int_eq_self) simp_all

lemma uint_u16_less: "uint (l :: u16) < 65536"
  using uint_lt2p [of l] by simp

lemma uint_ucast16: "uint (ucast (l :: u16) :: c_int) = uint l"
proof -
  have "uint l < 2 ^ 32" using uint_u16_less [of l] by simp
  then show ?thesis
    by (simp add: unsigned_ucast_eq take_bit_int_eq_self)
qed

lemma sint_ucast16: "sint (ucast (l :: u16) :: c_int) = uint l"
proof -
  have "signed_take_bit 31 (uint l) = uint l"
    using uint_u16_less [of l] uint_ge_0 [of l]
    by (intro signed_take_bit_31_self) linarith+
  then show ?thesis
    by (simp add: sint_uint uint_ucast16)
qed

lemma sint_c_int_less: "sint (b :: c_int) < 2147483648"
  using sint_lt [of b] by simp

lemma sint_sub_len:
  fixes b :: c_int and l :: u16
  assumes "uint l \<le> sint b"
  shows "sint (b - ucast l) = sint b - uint l"
proof -
  have "signed_take_bit 31 (sint b - uint l) = sint b - uint l"
    using assms sint_c_int_less [of b] uint_ge_0 [of l]
    by (intro signed_take_bit_31_self) linarith+
  then show ?thesis
    by (simp add: sint_word_ariths sint_ucast16)
qed

lemma sint_mul_1024:
  fixes r :: c_int
  assumes "0 \<le> sint r" "sint r \<le> 2097151"
  shows "sint (r * 1024) = sint r * 1024"
proof -
  have "signed_take_bit 31 (sint r * 1024) = sint r * 1024"
    using assms
    by (intro signed_take_bit_31_self) linarith+
  then show ?thesis
    by (simp add: sint_word_ariths)
qed


section \<open>The request path: priority\<close>

lemma delta_time_exact:
  fixes now past ppc :: u64
  assumes "\<not> now < past" and "(unat now - unat past) * unat ppc < 2 ^ 64"
  shows "unat ((now - past) * ppc) = (unat now - unat past) * unat ppc"
proof -
  from assms(1) have "past \<le> now" by simp
  then have sub: "unat (now - past) = unat now - unat past" by (rule unat_sub)
  with assms(2) have "unat (now - past) * unat ppc < 2 ^ LENGTH(64)" by simp
  then have "unat ((now - past) * ppc) = unat (now - past) * unat ppc"
    by (simp only: unat_mult_lem)
  with sub show ?thesis by simp
qed

lemmas request_eval =
  gk_process_request_def priority_from_delta_time_def integer_log_base_2_def
  builtin_clzl_def clz_below_numeral ex_timing_def ex_request_entry_def
  START_ALLOWANCE_def START_PRIORITY_def PRIORITY_MAX_def Let_def

text \<open>
  Claim C1.  A packet classified on a flow entry in the request state gets the priority
  \<open>p\<close> computed from \<open>now\<close> and \<open>last_packet_seen_at\<close>: \<open>p\<close> is 0 when \<open>now\<close> is before
  \<open>last_packet_seen_at\<close>, and then the anomaly is logged and the packet is still given
  to the encapsulation; \<open>p\<close> is 0 when
  \<open>delta = (now - last_packet_seen_at) * picosec_per_cycle\<close>, the 64-bit value the code
  computes, is less than 1; otherwise \<open>p\<close> is the integer base-2 logarithm of \<open>delta\<close>,
  that is \<open>2 ^ p \<le> delta < 2 ^ (p + 1)\<close>.  The 64-bit \<open>delta\<close> is the product of the
  integers whenever that product is below \<open>2 ^ 64\<close>.  Afterwards the entry is in the
  request state with \<open>last_packet_seen_at = now\<close>.
\<close>

theorem request_priority:
  fixes tm :: timing and now :: u64 and r :: request_t
  defines "past \<equiv> last_packet_seen_at r"
  defines "delta \<equiv> (now - past) * picosec_per_cycle tm"
  defines "p \<equiv> fst (priority_from_delta_time tm now past)"
  assumes st: "u fe = Request r"
    and run: "gk_process_request tm now enc_ret fe pkt = (ret, fe', evs)"
  shows "(now < past \<longrightarrow>
            p = 0 \<and> (\<exists>dscp. evs = [Log ''gk: the present time smaller than the past time!'',
                                   Encapsulate pkt dscp])) \<and>
         (\<not> now < past \<and> delta < 1 \<longrightarrow> p = 0) \<and>
         (\<not> now < past \<and> \<not> delta < 1 \<longrightarrow>
            2 ^ unat p \<le> unat delta \<and> unat delta < 2 ^ (unat p + 1)) \<and>
         (\<not> now < past \<and> (unat now - unat past) * unat (picosec_per_cycle tm) < 2 ^ 64 \<longrightarrow>
            unat delta = (unat now - unat past) * unat (picosec_per_cycle tm)) \<and>
         (\<exists>r'. u fe' = Request r' \<and> last_packet_seen_at r' = now)"
proof -
  note res = gk_process_request_results [OF run, unfolded st, simplified]
  have e: "unat delta = (unat now - unat past) * unat (picosec_per_cycle tm)"
    if "\<not> now < past" "(unat now - unat past) * unat (picosec_per_cycle tm) < 2 ^ 64"
    unfolding delta_def using that by (rule delta_time_exact)
  have a: "p = 0 \<and> (\<exists>dscp. evs = [Log ''gk: the present time smaller than the past time!'',
                                  Encapsulate pkt dscp])" if "now < past"
    using that
    by (simp add: res(3) priority_from_delta_time_snd past_def)
      (simp add: p_def past_def priority_from_delta_time_def)
  have b: "p = 0" if "\<not> now < past" "delta < 1"
    using that by (simp add: p_def delta_def priority_from_delta_time_def)
  have c: "2 ^ unat p \<le> unat delta \<and> unat delta < 2 ^ (unat p + 1)"
    if "\<not> now < past" "\<not> delta < 1"
  proof -
    from that have nz: "delta \<noteq> 0" by (simp add: word_less_1)
    from that have "p = integer_log_base_2 delta"
      by (simp add: p_def delta_def priority_from_delta_time_def Let_def)
    with integer_log_base_2_floor(1,2) [OF nz] show ?thesis by simp
  qed
  have d: "\<exists>r'. u fe' = Request r' \<and> last_packet_seen_at r' = now"
    by (simp add: res(2))
  from a b c d e show ?thesis by blast
qed

theorem request_priority_witness:
  "gk_process_request ex_timing 101 0 (ex_request_entry 100 38 7) ex_pkt =
     (0, ex_request_entry 101 38 6, [Encapsulate ex_pkt 41]) \<and>
   fst (priority_from_delta_time ex_timing 101 100) = 9 \<and>
   (2 :: nat) ^ 9 \<le> unat ((101 - 100) * picosec_per_cycle ex_timing) \<and>
   unat ((101 - 100) * picosec_per_cycle ex_timing) < 2 ^ (9 + 1) \<and>
   gk_process_request ex_timing 50 0 (ex_request_entry 100 38 7) ex_pkt =
     (0, ex_request_entry 50 38 6,
      [Log ''gk: the present time smaller than the past time!'', Encapsulate ex_pkt 41]) \<and>
   fst (priority_from_delta_time ex_timing 50 100) = 0 \<and>
   fst (priority_from_delta_time ex_timing 100 100) = 0"
proof -
  have st: "u (ex_request_entry 100 38 7) =
      Request \<lparr>last_packet_seen_at = 100, last_priority = 38, allowance = 7, grantor_id = 0\<rparr>"
    by (simp add: ex_request_entry_def)
  have run: "gk_process_request ex_timing 101 0 (ex_request_entry 100 38 7) ex_pkt =
     (0, ex_request_entry 101 38 6, [Encapsulate ex_pkt 41])"
    by (simp add: request_eval)
  have p: "fst (priority_from_delta_time ex_timing 101 100) = 9"
    by (simp add: request_eval)
  have late: "gk_process_request ex_timing 50 0 (ex_request_entry 100 38 7) ex_pkt =
     (0, ex_request_entry 50 38 6,
      [Log ''gk: the present time smaller than the past time!'', Encapsulate ex_pkt 41])"
    by (simp add: request_eval)
  have same: "gk_process_request ex_timing 100 0 (ex_request_entry 100 38 7) ex_pkt =
     (0, ex_request_entry 100 38 6, [Encapsulate ex_pkt 41])"
    by (simp add: request_eval)
  from request_priority [OF st run] request_priority [OF st late]
    request_priority [OF st same] run p late
  show ?thesis
    by (simp add: ex_timing_def)
qed


section \<open>The invariant is kept\<close>

lemma unat_u8_le_63: "(p :: u8) \<le> 63 \<longleftrightarrow> unat p \<le> 63"
  by (simp add: word_le_nat_alt)

lemma request_dscp_unat:
  assumes "(p :: u8) \<le> 63"
  shows "unat (request_dscp p) = min (unat p + 3) 63"
proof -
  from assms have le: "unat p \<le> 63" by (simp add: word_le_nat_alt)
  then have add: "unat (p + 3) = unat p + 3"
    by (simp add: unat_word_ariths)
  show ?thesis
    using le by (simp add: request_dscp_def PRIORITY_MAX_def word_less_nat_alt add)
qed

lemma request_dscp_range:
  assumes "(p :: u8) \<le> 63"
  shows "3 \<le> request_dscp p" and "request_dscp p \<le> 63"
  using request_dscp_unat [OF assms] by (simp_all add: word_le_nat_alt)

lemma allowance_dec_le:
  assumes "0 < (a :: u8)" "a \<le> 7"
  shows "a - 1 \<le> 7"
proof -
  from assms(1) have "a \<noteq> 0" by auto
  then have "unat (a - 1) = unat a - 1" by (rule unat_minus_one)
  moreover from assms(2) have "unat a \<le> 7" by (simp add: word_le_nat_alt)
  ultimately show ?thesis by (simp add: word_le_nat_alt)
qed

lemma inv_initialize: "flow_u_inv (u (initialize_flow_entry tsc fl))"
  by (simp add: initialize_flow_entry_def START_PRIORITY_def START_ALLOWANCE_def)

lemma inv_reinitialize: "flow_u_inv (u (reinitialize_flow_entry fe now))"
  by (simp add: reinitialize_flow_entry_def START_PRIORITY_def START_ALLOWANCE_def)

lemma is_request_reinitialize:
  "u (reinitialize_flow_entry fe now) =
     Request \<lparr>last_packet_seen_at = now, last_priority = 38, allowance = 7, grantor_id = 0\<rparr>"
  by (simp add: reinitialize_flow_entry_def START_PRIORITY_def START_ALLOWANCE_def)

lemma inv_request:
  assumes inv: "flow_u_inv (u fe)" and st: "u fe = Request r"
    and run: "gk_process_request tm now enc_ret fe pkt = (ret, fe', evs)"
  shows "flow_u_inv (u fe')"
proof -
  from inv st have lp: "last_priority r \<le> 63" and al: "allowance r \<le> 7" by simp_all
  have p: "fst (priority_from_delta_time tm now (last_packet_seen_at r)) \<le> 63"
    by (rule priority_from_delta_time_le)
  show ?thesis
    using lp al p allowance_dec_le [of "allowance r"]
    by (simp add: gk_process_request_results(2) [OF run] st START_ALLOWANCE_def)
qed


lemma gk_process_granted_expired:
  "cap_expire_at (granted (u fe)) \<le> now \<Longrightarrow>
   gk_process_granted tm now now_req enc_ret fe pkt =
     gk_process_request tm now_req enc_ret (reinitialize_flow_entry fe now) pkt"
  by (simp add: gk_process_granted_def Let_def)

lemma gk_process_granted_valid:
  fixes tm :: timing
  assumes st: "u fe = Granted g" and valid: "\<not> cap_expire_at g \<le> now"
  defines "g1 \<equiv> renew_budget tm now g"
  shows "gk_process_granted tm now now_req enc_ret fe pkt =
     (if sint (budget_byte g1) < uint (data_len pkt) then
        (0, fe\<lparr>u := Granted g1\<rparr>, [Pktmbuf_free pkt])
      else
        (if enc_ret < 0 then enc_ret else 0,
         fe\<lparr>u := Granted (g1\<lparr>budget_byte := budget_byte g1 - ucast (data_len pkt),
                   send_next_renewal_at :=
                     (if send_next_renewal_at g1 \<le> now then now + renewal_step_cycle g1
                      else send_next_renewal_at g1)\<rparr>)\<rparr>,
         [Encapsulate pkt (if send_next_renewal_at g1 \<le> now then PRIORITY_RENEW_CAP
                           else PRIORITY_GRANTED)]))"
  using valid
  by (simp add: gk_process_granted_def drop_packet_def Let_def st g1_def renew_budget_def
      split_beta)

lemma inv_renew_budget: "flow_u_inv (Granted g) \<Longrightarrow> flow_u_inv (Granted (renew_budget tm now g))"
  by (simp add: renew_budget_def)

lemma inv_granted:
  assumes inv: "flow_u_inv (u fe)" and st: "u fe = Granted g"
    and run: "gk_process_granted tm now now_req enc_ret fe pkt = (ret, fe', evs)"
  shows "flow_u_inv (u fe')"
proof (cases "cap_expire_at g \<le> now")
  case True
  with st run have "gk_process_request tm now_req enc_ret (reinitialize_flow_entry fe now) pkt
      = (ret, fe', evs)"
    by (simp add: gk_process_granted_expired)
  then show ?thesis
    by (rule inv_request [OF inv_reinitialize is_request_reinitialize])
next
  case False
  define g1 where "g1 = renew_budget tm now g"
  from inv st have "flow_u_inv (Granted g)" by simp
  then have inv1: "flow_u_inv (Granted g1)"
    unfolding g1_def by (rule inv_renew_budget)
  note v = gk_process_granted_valid [OF st False, of tm now_req enc_ret pkt, folded g1_def]
  show ?thesis
  proof (cases "sint (budget_byte g1) < uint (data_len pkt)")
    case True
    with v run have "fe' = fe\<lparr>u := Granted g1\<rparr>" by simp
    with inv1 show ?thesis by simp
  next
    case False
    then have le: "uint (data_len pkt) \<le> sint (budget_byte g1)" by simp
    from False v run have fe': "u fe' = Granted (g1\<lparr>budget_byte := budget_byte g1 - ucast (data_len pkt),
                   send_next_renewal_at :=
                     (if send_next_renewal_at g1 \<le> now then now + renewal_step_cycle g1
                      else send_next_renewal_at g1)\<rparr>)"
      by auto
    have eq: "sint (budget_byte g1 - ucast (data_len pkt)) =
        sint (budget_byte g1) - uint (data_len pkt)"
      by (rule sint_sub_len [OF le])
    from inv1 have cap: "sint (budget_byte g1) \<le> sint (tx_rate_kb_cycle g1 * 1024)" by simp
    have "sint (budget_byte g1 - ucast (data_len pkt)) \<le> sint (tx_rate_kb_cycle g1 * 1024)"
      using eq cap uint_ge_0 [of "data_len pkt"] by linarith
    moreover have "0 \<le> sint (budget_byte g1 - ucast (data_len pkt))"
      using eq le by linarith
    ultimately show ?thesis
      by (simp add: fe')
  qed
qed

lemma inv_declined:
  assumes st: "u fe = Declined d"
    and run: "gk_process_declined tm now now_req enc_ret fe pkt = (ret, fe', evs)"
  shows "flow_u_inv (u fe')"
proof (cases "expire_at d \<le> now")
  case True
  with st run have "gk_process_request tm now_req enc_ret (reinitialize_flow_entry fe now) pkt
      = (ret, fe', evs)"
    by (simp add: gk_process_declined_def)
  then show ?thesis
    by (rule inv_request [OF inv_reinitialize is_request_reinitialize])
next
  case False
  with st run have "fe' = fe"
    by (simp add: gk_process_declined_def drop_packet_def)
  with st show ?thesis by simp
qed

lemma inv_set_policy:
  assumes inv: "flow_u_inv (u fe)" and run: "set_policy tm now pol fe = (fe', evs)"
  shows "flow_u_inv (u fe')"
  using assms
  by (cases "pol_state pol") (auto simp: set_policy_def Let_def)

lemma reachable_entry_inv: "reachable_entry tm fe \<Longrightarrow> flow_u_inv (u fe)"
proof (induction rule: reachable_entry.induct)
  case (created tsc fl)
  show ?case by (rule inv_initialize)
next
  case (reinitialized fe now)
  show ?case by (rule inv_reinitialize)
next
  case (packet fe now now_req enc_ret pkt ret fe' evs)
  show ?case
  proof (cases "u fe")
    case (Request r)
    with packet.hyps(2) have "gk_process_request tm now enc_ret fe pkt = (ret, fe', evs)"
      by (simp add: gk_process_flow_entry_def state_def)
    from inv_request [OF packet.IH Request this] show ?thesis .
  next
    case (Granted g)
    with packet.hyps(2) have "gk_process_granted tm now now_req enc_ret fe pkt = (ret, fe', evs)"
      by (simp add: gk_process_flow_entry_def state_def)
    from inv_granted [OF packet.IH Granted this] show ?thesis .
  next
    case (Declined d)
    with packet.hyps(2) have "gk_process_declined tm now now_req enc_ret fe pkt = (ret, fe', evs)"
      by (simp add: gk_process_flow_entry_def state_def)
    from inv_declined [OF Declined this] show ?thesis .
  qed
next
  case (policy fe now pol fe' evs)
  from inv_set_policy [OF policy.IH policy.hyps(2)] show ?case .
qed

section \<open>The request path: allowance and DSCP\<close>

text \<open>
  Claim C2.  After the priority \<open>p\<close> of a packet in the request state is computed: if
  \<open>p\<close> is strictly less than \<open>last_priority\<close> and \<open>allowance\<close> is positive, then
  \<open>allowance\<close> goes down by one (without wrapping), \<open>last_priority\<close> stays and the packet
  is sent with \<open>last_priority\<close>; otherwise, also when \<open>p = last_priority\<close>,
  \<open>last_priority\<close> becomes \<open>p\<close>, \<open>allowance\<close> becomes 7 and the packet is sent with \<open>p\<close>.
\<close>

theorem request_allowance:
  fixes tm :: timing
  assumes st: "u fe = Request r"
    and run: "gk_process_request tm now enc_ret fe pkt = (ret, fe', evs)"
  defines "p \<equiv> fst (priority_from_delta_time tm now (last_packet_seen_at r))"
  defines "logs \<equiv> snd (priority_from_delta_time tm now (last_packet_seen_at r))"
  shows "(p < last_priority r \<and> 0 < allowance r \<longrightarrow>
            u fe' = Request (r\<lparr>last_packet_seen_at := now, allowance := allowance r - 1\<rparr>) \<and>
            unat (allowance r - 1) = unat (allowance r) - 1 \<and>
            evs = logs @ [Encapsulate pkt (request_dscp (last_priority r))]) \<and>
         (\<not> (p < last_priority r \<and> 0 < allowance r) \<longrightarrow>
            u fe' = Request (r\<lparr>last_packet_seen_at := now, last_priority := p,
                               allowance := 7\<rparr>) \<and>
            evs = logs @ [Encapsulate pkt (request_dscp p)]) \<and>
         (p = last_priority r \<longrightarrow>
            last_priority (request (u fe')) = p \<and> allowance (request (u fe')) = 7)"
proof -
  note res = gk_process_request_results [OF run, unfolded st, simplified]
  have dec: "unat (allowance r - 1) = unat (allowance r) - 1" if "0 < allowance r"
  proof -
    from that have "allowance r \<noteq> 0" by auto
    then show ?thesis by (rule unat_minus_one)
  qed
  show ?thesis
    using dec by (auto simp: res START_ALLOWANCE_def p_def logs_def)
qed

theorem request_allowance_witness:
  "gk_process_request ex_timing 101 0 (ex_request_entry 100 38 7) ex_pkt =
     (0, ex_request_entry 101 38 6, [Encapsulate ex_pkt 41]) \<and>
   fst (priority_from_delta_time ex_timing 101 100) = 9 \<and>
   unat (7 - 1 :: u8) = unat (7 :: u8) - 1 \<and>
   gk_process_request ex_timing 1124 0 (ex_request_entry 100 10 3) ex_pkt =
     (0, ex_request_entry 1124 19 7, [Encapsulate ex_pkt 22]) \<and>
   gk_process_request ex_timing 101 0 (ex_request_entry 100 9 3) ex_pkt =
     (0, ex_request_entry 101 9 7, [Encapsulate ex_pkt 12])"
proof -
  have run: "gk_process_request ex_timing 101 0 (ex_request_entry 100 38 7) ex_pkt =
     (0, ex_request_entry 101 38 6, [Encapsulate ex_pkt 41])"
    by (simp add: request_eval)
  have st: "u (ex_request_entry 100 38 7) =
      Request \<lparr>last_packet_seen_at = 100, last_priority = 38, allowance = 7, grantor_id = 0\<rparr>"
    by (simp add: ex_request_entry_def)
  have p: "fst (priority_from_delta_time ex_timing 101 100) = 9"
    by (simp add: request_eval)
  have run2: "gk_process_request ex_timing 1124 0 (ex_request_entry 100 10 3) ex_pkt =
     (0, ex_request_entry 1124 19 7, [Encapsulate ex_pkt 22])"
    by (simp add: request_eval)
  have run3: "gk_process_request ex_timing 101 0 (ex_request_entry 100 9 3) ex_pkt =
     (0, ex_request_entry 101 9 7, [Encapsulate ex_pkt 12])"
    by (simp add: request_eval)
  from request_allowance [OF st run] run p run2 run3 show ?thesis
    by simp
qed

text \<open>
  Claim C3.  For a flow entry in the request state that the code can produce, the DSCP
  given to the encapsulation is \<open>min (priority + 3) 63\<close>, where \<open>priority\<close> is the priority
  after the allowance rule; it lies between 3 and 63 and is never 0, 1 or 2.
\<close>

theorem request_dscp_value:
  fixes tm :: timing
  assumes reach: "reachable_entry tm fe"
    and st: "u fe = Request r"
    and run: "gk_process_request tm now enc_ret fe pkt = (ret, fe', evs)"
  defines "p \<equiv> fst (priority_from_delta_time tm now (last_packet_seen_at r))"
  defines "logs \<equiv> snd (priority_from_delta_time tm now (last_packet_seen_at r))"
  defines "priority \<equiv> (if p < last_priority r \<and> 0 < allowance r then last_priority r else p)"
  shows "evs = logs @ [Encapsulate pkt (request_dscp priority)] \<and>
         unat (request_dscp priority) = min (unat priority + 3) 63 \<and>
         3 \<le> request_dscp priority \<and> request_dscp priority \<le> 63 \<and>
         request_dscp priority \<notin> {0, 1, 2}"
proof -
  note res = gk_process_request_results [OF run, unfolded st, simplified]
  from reachable_entry_inv [OF reach] st have lp: "last_priority r \<le> 63" by simp
  have "p \<le> 63" unfolding p_def by (rule priority_from_delta_time_le)
  with lp have le: "priority \<le> 63" by (simp add: priority_def)
  note rng = request_dscp_range [OF le]
  have "unat (request_dscp priority) \<ge> 3" using rng(1) by (simp add: word_le_nat_alt)
  then have "request_dscp priority \<notin> {0, 1, 2}" by auto
  with rng request_dscp_unat [OF le] show ?thesis
    by (simp add: res priority_def p_def logs_def)
qed

theorem request_dscp_value_witness:
  "reachable_entry ex_timing (initialize_flow_entry 100 7) \<and>
   gk_process_request ex_timing 101 0 (initialize_flow_entry 100 7) ex_pkt =
     (0, ex_request_entry 101 38 6, [Encapsulate ex_pkt 41]) \<and>
   request_dscp 38 = 41 \<and> unat (41 :: u8) = min (unat (38 :: u8) + 3) 63 \<and>
   (3 :: u8) \<le> 41 \<and> (41 :: u8) \<le> 63"
proof -
  have reach: "reachable_entry ex_timing (initialize_flow_entry 100 7)"
    by (rule reachable_entry.created)
  have st: "u (initialize_flow_entry 100 7) =
      Request \<lparr>last_packet_seen_at = 100, last_priority = 38, allowance = 7, grantor_id = 0\<rparr>"
    by (simp add: initialize_flow_entry_def START_PRIORITY_def START_ALLOWANCE_def)
  have run: "gk_process_request ex_timing 101 0 (initialize_flow_entry 100 7) ex_pkt =
     (0, ex_request_entry 101 38 6, [Encapsulate ex_pkt 41])"
    by (simp add: request_eval initialize_flow_entry_def)
  have p: "fst (priority_from_delta_time ex_timing 101 100) = 9"
    by (simp add: request_eval)
  have d: "request_dscp 38 = 41" by (simp add: request_dscp_def PRIORITY_MAX_def)
  from request_dscp_value [OF reach st run] reach run p d show ?thesis
    by simp
qed

section \<open>The byte budget, expiry and the first packet\<close>

lemmas granted_eval =
  set_policy_def ex_grant_def ex_granted_entry_def ex_timing_def initialize_flow_entry_def
  cycle_from_second_def START_ALLOWANCE_def START_PRIORITY_def Let_def

lemma ex_set_policy:
  "set_policy ex_timing 0 (ex_grant 10) (initialize_flow_entry 0 7) =
     (ex_granted_entry 10 10240, [])"
  by (simp add: granted_eval)

lemmas packet_eval =
  gk_proc_iteration_def gk_proc_packet_def gk_process_flow_entry_def state_def
  gk_process_granted_def gk_process_declined_def drop_packet_def
  rte_hash_lookup_with_hash_def ex_instance_with_def ex_rx_def ex_pkt_def ex_pkt_len_def
  ex_granted_entry_def ex_declined_entry_def ex_timing_def cycle_from_second_def
  GK_CMD_BURST_SIZE_def PRIORITY_GRANTED_def PRIORITY_RENEW_CAP_def Let_def

text \<open>
  Claim C4 fails as stated, in four ways.  A granted policy whose rate has all bits set is
  stored as the \<open>int\<close> \<open>-1\<close>, and the installed budget is \<open>-1024\<close>, below 0.  A rate of
  2097152 gives a product with 1024 that no \<open>int\<close> holds, and the installed budget is
  negative again.  A packet of 2000 bytes that arrives when the budget is 100 and
  \<open>budget_renew_at\<close> has been reached exceeds \<open>budget_byte\<close>, yet the budget is renewed
  first and the packet is accepted.  A packet of 2000 bytes that arrives when the budget
  is 100 and no renewal is due is given to \<open>rte_pktmbuf_free\<close> and then, in the same
  iteration of the loop, to \<open>rte_eth_tx_burst\<close>.
\<close>

theorem granted_budget_counterexample:
  "set_policy ex_timing 0 (ex_grant (- 1)) (initialize_flow_entry 0 7) =
     (ex_granted_entry (- 1) (- 1024), []) \<and>
   \<not> 0 \<le> sint (budget_byte (granted (u (ex_granted_entry (- 1) (- 1024))))) \<and>
   set_policy ex_timing 0 (ex_grant 2097152) (initialize_flow_entry 0 7) =
     (ex_granted_entry 2097152 (- 2147483648), []) \<and>
   \<not> 0 \<le> sint (budget_byte (granted (u (ex_granted_entry 2097152 (- 2147483648))))) \<and>
   gk_process_flow_entry ex_timing 0 0 0 (ex_granted_entry 10 10240) (ex_pkt_len 10140) =
     (0, ex_granted_entry 10 100, [Encapsulate (ex_pkt_len 10140) 1]) \<and>
   sint (budget_byte (granted (u (ex_granted_entry 10 100)))) < uint (data_len ex_pkt) \<and>
   gk_process_flow_entry ex_timing 1000000000 0 0 (ex_granted_entry 10 100) ex_pkt =
     (0, \<lparr>flow = 7,
          u = Granted \<lparr>cap_expire_at = 60000000000, budget_renew_at = 2000000000,
                       tx_rate_kb_cycle = 10, budget_byte = 8240,
                       send_next_renewal_at = 1500000000,
                       renewal_step_cycle = 500000000\<rparr>\<rparr>,
      [Encapsulate ex_pkt 2]) \<and>
   snd (gk_proc_iteration ex_timing ex_lls_conf ex_net [ex_rx] 1 (\<lambda>i. (0, 0))
         (ex_instance_with (ex_granted_entry 10 100))) =
     [Pktmbuf_free ex_pkt, Tx_burst [ex_pkt]]"
proof -
  have a: "set_policy ex_timing 0 (ex_grant (- 1)) (initialize_flow_entry 0 7) =
     (ex_granted_entry (- 1) (- 1024), [])"
    "\<not> 0 \<le> sint (budget_byte (granted (u (ex_granted_entry (- 1) (- 1024)))))"
    by (simp_all add: granted_eval)
  have b: "set_policy ex_timing 0 (ex_grant 2097152) (initialize_flow_entry 0 7) =
     (ex_granted_entry 2097152 (- 2147483648), [])"
    "\<not> 0 \<le> sint (budget_byte (granted (u (ex_granted_entry 2097152 (- 2147483648)))))"
    by (simp_all add: granted_eval)
  have c: "gk_process_flow_entry ex_timing 0 0 0 (ex_granted_entry 10 10240) (ex_pkt_len 10140) =
     (0, ex_granted_entry 10 100, [Encapsulate (ex_pkt_len 10140) 1])"
    "sint (budget_byte (granted (u (ex_granted_entry 10 100)))) < uint (data_len ex_pkt)"
    "gk_process_flow_entry ex_timing 1000000000 0 0 (ex_granted_entry 10 100) ex_pkt =
     (0, \<lparr>flow = 7,
          u = Granted \<lparr>cap_expire_at = 60000000000, budget_renew_at = 2000000000,
                       tx_rate_kb_cycle = 10, budget_byte = 8240,
                       send_next_renewal_at = 1500000000,
                       renewal_step_cycle = 500000000\<rparr>\<rparr>,
      [Encapsulate ex_pkt 2])"
    by (simp_all add: packet_eval)
  have d: "snd (gk_proc_iteration ex_timing ex_lls_conf ex_net [ex_rx] 1 (\<lambda>i. (0, 0))
         (ex_instance_with (ex_granted_entry 10 100))) =
     [Pktmbuf_free ex_pkt, Tx_burst [ex_pkt]]"
    by (simp add: packet_eval)
  from a b c d show ?thesis by blast
qed

lemma set_policy_granted:
  assumes "pol_state pol = GK_GRANTED"
  shows "set_policy tm t pol fe =
     (fe\<lparr>u := Granted
        \<lparr>cap_expire_at = t + ucast (cap_expire_sec (params_granted (params pol)))
                               * cycles_per_sec tm,
         budget_renew_at = t + cycle_from_second tm 1,
         tx_rate_kb_cycle = ucast (tx_rate_kb_sec (params_granted (params pol))),
         budget_byte = ucast (tx_rate_kb_sec (params_granted (params pol))) * 1024,
         send_next_renewal_at = t + ucast (next_renewal_ms (params_granted (params pol)))
                                      * cycles_per_ms tm,
         renewal_step_cycle = ucast (renewal_step_ms (params_granted (params pol)))
                                * cycles_per_ms tm\<rparr>\<rparr>, [])"
  using assms by (simp add: set_policy_def Let_def)

text \<open>
  Claim C4, amended.  For a flow entry in the granted state that the code can produce and
  whose \<open>tx_rate_kb_cycle\<close> is between 0 and 2097151, so that \<open>tx_rate_kb_cycle * 1024\<close>
  is a non-negative \<open>int\<close>: \<open>budget_byte\<close> is in \<open>[0, tx_rate_kb_cycle * 1024]\<close>; a packet
  on the granted path leaves it there; the packet is checked against \<open>avail\<close>, which is
  \<open>tx_rate_kb_cycle * 1024\<close> when \<open>budget_renew_at\<close> has been reached and \<open>budget_byte\<close>
  otherwise; a longer packet is not encapsulated and \<open>budget_byte\<close> is left at \<open>avail\<close>;
  any other packet is accepted and \<open>budget_byte\<close> becomes \<open>avail\<close> minus its length.  The
  installation of a granted policy sets \<open>budget_byte\<close> to \<open>tx_rate_kb_cycle * 1024\<close>.
\<close>

theorem granted_budget:
  fixes tm :: timing and now :: u64
  assumes reach: "reachable_entry tm fe"
    and st: "u fe = Granted g"
    and rate: "0 \<le> sint (tx_rate_kb_cycle g)" "sint (tx_rate_kb_cycle g) \<le> 2097151"
  defines "limit \<equiv> sint (tx_rate_kb_cycle g) * 1024"
  defines "avail \<equiv> (if budget_renew_at g \<le> now then limit else sint (budget_byte g))"
  shows "0 \<le> sint (budget_byte g) \<and> sint (budget_byte g) \<le> limit \<and>
    (\<not> cap_expire_at g \<le> now \<and>
     gk_process_flow_entry tm now now_req enc_ret fe pkt = (ret, fe', evs) \<longrightarrow>
       (\<exists>g'. u fe' = Granted g' \<and> tx_rate_kb_cycle g' = tx_rate_kb_cycle g \<and>
          0 \<le> sint (budget_byte g') \<and> sint (budget_byte g') \<le> limit \<and>
          (avail < uint (data_len pkt) \<longrightarrow>
             sint (budget_byte g') = avail \<and> evs = [Pktmbuf_free pkt]) \<and>
          (uint (data_len pkt) \<le> avail \<longrightarrow>
             sint (budget_byte g') = avail - uint (data_len pkt) \<and>
             evs = [Encapsulate pkt (if send_next_renewal_at g \<le> now
                                     then PRIORITY_RENEW_CAP else PRIORITY_GRANTED)]))) \<and>
    (pol_state pol = GK_GRANTED \<and> set_policy tm t pol fe0 = (fe1, evs1) \<longrightarrow>
       (\<exists>g1. u fe1 = Granted g1 \<and>
          tx_rate_kb_cycle g1 = ucast (tx_rate_kb_sec (params_granted (params pol))) \<and>
          budget_byte g1 = tx_rate_kb_cycle g1 * 1024))"
proof -
  have mul: "sint (tx_rate_kb_cycle g * 1024) = limit"
    unfolding limit_def by (rule sint_mul_1024 [OF rate])
  have limit0: "0 \<le> limit" using rate(1) by (simp add: limit_def)
  from reachable_entry_inv [OF reach] st mul limit0
  have now_ok: "0 \<le> sint (budget_byte g)" "sint (budget_byte g) \<le> limit"
    by simp_all
  have step: "\<exists>g'. u fe' = Granted g' \<and> tx_rate_kb_cycle g' = tx_rate_kb_cycle g \<and>
          0 \<le> sint (budget_byte g') \<and> sint (budget_byte g') \<le> limit \<and>
          (avail < uint (data_len pkt) \<longrightarrow>
             sint (budget_byte g') = avail \<and> evs = [Pktmbuf_free pkt]) \<and>
          (uint (data_len pkt) \<le> avail \<longrightarrow>
             sint (budget_byte g') = avail - uint (data_len pkt) \<and>
             evs = [Encapsulate pkt (if send_next_renewal_at g \<le> now
                                     then PRIORITY_RENEW_CAP else PRIORITY_GRANTED)])"
    if valid: "\<not> cap_expire_at g \<le> now"
      and run: "gk_process_flow_entry tm now now_req enc_ret fe pkt = (ret, fe', evs)"
  proof -
    define g1 where "g1 = renew_budget tm now g"
    have b1: "sint (budget_byte g1) = avail"
      by (simp add: g1_def renew_budget_def avail_def mul)
    have r1: "tx_rate_kb_cycle g1 = tx_rate_kb_cycle g"
      and s1: "send_next_renewal_at g1 = send_next_renewal_at g"
      by (simp_all add: g1_def renew_budget_def)
    have avail_ok: "0 \<le> avail" "avail \<le> limit"
      using now_ok limit0 by (simp_all add: avail_def)
    from run st have run': "gk_process_granted tm now now_req enc_ret fe pkt = (ret, fe', evs)"
      by (simp add: gk_process_flow_entry_def state_def)
    note v = gk_process_granted_valid [OF st valid, of tm now_req enc_ret pkt, folded g1_def]
    show ?thesis
    proof (cases "avail < uint (data_len pkt)")
      case True
      with v run' b1 have "fe' = fe\<lparr>u := Granted g1\<rparr>" "evs = [Pktmbuf_free pkt]"
        by simp_all
      with True b1 r1 avail_ok show ?thesis by simp
    next
      case False
      then have le: "uint (data_len pkt) \<le> sint (budget_byte g1)" by (simp add: b1)
      have eq: "sint (budget_byte g1 - ucast (data_len pkt)) = avail - uint (data_len pkt)"
        using sint_sub_len [OF le] by (simp add: b1)
      from False v run' b1 have fe': "u fe' =
          Granted (g1\<lparr>budget_byte := budget_byte g1 - ucast (data_len pkt),
                   send_next_renewal_at :=
                     (if send_next_renewal_at g1 \<le> now then now + renewal_step_cycle g1
                      else send_next_renewal_at g1)\<rparr>)"
        and evs: "evs = [Encapsulate pkt (if send_next_renewal_at g1 \<le> now
                                     then PRIORITY_RENEW_CAP else PRIORITY_GRANTED)]"
        by auto
      have "0 \<le> avail - uint (data_len pkt)" using False by simp
      moreover have "avail - uint (data_len pkt) \<le> limit"
        using avail_ok(2) uint_ge_0 [of "data_len pkt"] by linarith
      ultimately show ?thesis
        using False by (simp add: fe' evs eq r1 s1)
    qed
  qed
  have install: "\<exists>g1. u fe1 = Granted g1 \<and>
          tx_rate_kb_cycle g1 = ucast (tx_rate_kb_sec (params_granted (params pol))) \<and>
          budget_byte g1 = tx_rate_kb_cycle g1 * 1024"
    if "pol_state pol = GK_GRANTED" "set_policy tm t pol fe0 = (fe1, evs1)"
    using that(2) [symmetric] by (simp add: set_policy_granted [OF that(1)])
  from now_ok step install show ?thesis by blast
qed


theorem granted_budget_witness:
  "reachable_entry ex_timing (ex_granted_entry 10 10240) \<and>
   set_policy ex_timing 0 (ex_grant 10) (initialize_flow_entry 0 7) =
     (ex_granted_entry 10 10240, []) \<and>
   gk_process_flow_entry ex_timing 0 0 0 (ex_granted_entry 10 10240) ex_pkt =
     (0, ex_granted_entry 10 8240, [Encapsulate ex_pkt 1]) \<and>
   uint (data_len ex_pkt) = 2000 \<and>
   sint (10240 :: c_int) = sint (10 :: c_int) * 1024 \<and>
   sint (8240 :: c_int) = 10240 - 2000"
proof -
  have reach: "reachable_entry ex_timing (ex_granted_entry 10 10240)"
    by (rule reachable_entry.policy [OF reachable_entry.created ex_set_policy])
  have st: "u (ex_granted_entry 10 10240) =
      Granted \<lparr>cap_expire_at = 60000000000, budget_renew_at = 1000000000,
               tx_rate_kb_cycle = 10, budget_byte = 10240,
               send_next_renewal_at = 500000000, renewal_step_cycle = 500000000\<rparr>"
    by (simp add: ex_granted_entry_def)
  have rate: "0 \<le> sint (tx_rate_kb_cycle \<lparr>cap_expire_at = 60000000000,
               budget_renew_at = 1000000000, tx_rate_kb_cycle = 10 :: c_int,
               budget_byte = 10240 :: c_int,
               send_next_renewal_at = 500000000, renewal_step_cycle = 500000000\<rparr>)"
     "sint (tx_rate_kb_cycle \<lparr>cap_expire_at = 60000000000,
               budget_renew_at = 1000000000, tx_rate_kb_cycle = 10 :: c_int,
               budget_byte = 10240 :: c_int,
               send_next_renewal_at = 500000000, renewal_step_cycle = 500000000\<rparr>) \<le> 2097151"
    by simp_all
  have run: "gk_process_flow_entry ex_timing 0 0 0 (ex_granted_entry 10 10240) ex_pkt =
     (0, ex_granted_entry 10 8240, [Encapsulate ex_pkt 1])"
    by (simp add: gk_process_flow_entry_def state_def gk_process_granted_def
        ex_granted_entry_def ex_pkt_def PRIORITY_GRANTED_def Let_def)
  from granted_budget [OF reach st rate, where now = 0 and now_req = 0 and enc_ret = 0
      and pkt = ex_pkt and ret = 0 and fe' = "ex_granted_entry 10 8240"
      and evs = "[Encapsulate ex_pkt 1]" and pol = "ex_grant 10" and t = 0
      and ?fe0.0 = "initialize_flow_entry 0 7"
      and ?fe1.0 = "ex_granted_entry 10 10240" and ?evs1.0 = "[]"]
    reach run ex_set_policy
  show ?thesis
    by (simp add: ex_pkt_def)
qed

text \<open>
  Expired entries.  A packet on a granted entry with \<open>now \<ge> cap_expire_at\<close>, and a packet
  on a declined entry with \<open>now \<ge> expire_at\<close>, is processed by \<open>gk_process_request\<close> on the
  entry \<open>fresh\<close>: the same flow, the request state, \<open>last_packet_seen_at = now\<close>,
  \<open>last_priority = 38\<close> and \<open>allowance = 7\<close>.  On a declined entry with \<open>now < expire_at\<close>
  the state function frees the packet, leaves the entry unchanged and returns 0.
\<close>

theorem expired_entry_restarts:
  fixes fe :: flow_entry and now :: u64
  defines "fresh \<equiv> fe\<lparr>u := Request \<lparr>last_packet_seen_at = now, last_priority = 38,
                                       allowance = 7, grantor_id = 0\<rparr>\<rparr>"
  shows "(u fe = Granted g \<and> now \<ge> cap_expire_at g \<longrightarrow>
            gk_process_flow_entry tm now now_req enc_ret fe pkt =
              gk_process_request tm now_req enc_ret fresh pkt) \<and>
         (u fe = Declined d \<and> now \<ge> expire_at d \<longrightarrow>
            gk_process_flow_entry tm now now_req enc_ret fe pkt =
              gk_process_request tm now_req enc_ret fresh pkt) \<and>
         (u fe = Declined d \<and> now < expire_at d \<longrightarrow>
            gk_process_flow_entry tm now now_req enc_ret fe pkt =
              (0, fe, [Pktmbuf_free pkt])) \<and>
         reinitialize_flow_entry fe now = fresh \<and> flow fresh = flow fe \<and>
         state fresh = GK_REQUEST"
  by (auto simp: gk_process_flow_entry_def state_def gk_process_granted_def
      gk_process_declined_def reinitialize_flow_entry_def drop_packet_def fresh_def
      START_PRIORITY_def START_ALLOWANCE_def Let_def)

theorem expired_entry_restarts_witness:
  "gk_process_flow_entry ex_timing 60000000000 60000000001 0
      (ex_granted_entry 10 10240) ex_pkt =
     (0, ex_request_entry 60000000001 38 6, [Encapsulate ex_pkt 41]) \<and>
   gk_process_flow_entry ex_timing 3000000000 3000000001 0
      (ex_declined_entry 2000000000) ex_pkt =
     (0, ex_request_entry 3000000001 38 6, [Encapsulate ex_pkt 41]) \<and>
   gk_process_flow_entry ex_timing 1000000000 1000000001 0
      (ex_declined_entry 2000000000) ex_pkt =
     (0, ex_declined_entry 2000000000, [Pktmbuf_free ex_pkt])"
proof -
  have g: "u (ex_granted_entry 10 10240) =
      Granted \<lparr>cap_expire_at = 60000000000, budget_renew_at = 1000000000,
               tx_rate_kb_cycle = 10, budget_byte = 10240,
               send_next_renewal_at = 500000000, renewal_step_cycle = 500000000\<rparr>"
    by (simp add: ex_granted_entry_def)
  have d: "u (ex_declined_entry 2000000000) = Declined \<lparr>expire_at = 2000000000\<rparr>"
    by (simp add: ex_declined_entry_def)
  have r1: "gk_process_request ex_timing 60000000001 0
      ((ex_granted_entry 10 10240)\<lparr>u := Request \<lparr>last_packet_seen_at = 60000000000,
         last_priority = 38, allowance = 7, grantor_id = 0\<rparr>\<rparr>) ex_pkt =
     (0, ex_request_entry 60000000001 38 6, [Encapsulate ex_pkt 41])"
    by (simp add: request_eval ex_granted_entry_def)
  have r2: "gk_process_request ex_timing 3000000001 0
      ((ex_declined_entry 2000000000)\<lparr>u := Request \<lparr>last_packet_seen_at = 3000000000,
         last_priority = 38, allowance = 7, grantor_id = 0\<rparr>\<rparr>) ex_pkt =
     (0, ex_request_entry 3000000001 38 6, [Encapsulate ex_pkt 41])"
    by (simp add: request_eval ex_declined_entry_def)
  from expired_entry_restarts [where fe = "ex_granted_entry 10 10240" and now = 60000000000
      and g = "\<lparr>cap_expire_at = 60000000000, budget_renew_at = 1000000000,
               tx_rate_kb_cycle = 10, budget_byte = 10240,
               send_next_renewal_at = 500000000, renewal_step_cycle = 500000000\<rparr>"
      and tm = ex_timing and now_req = 60000000001 and enc_ret = 0 and pkt = ex_pkt] g r1
  have a: "gk_process_flow_entry ex_timing 60000000000 60000000001 0
      (ex_granted_entry 10 10240) ex_pkt =
     (0, ex_request_entry 60000000001 38 6, [Encapsulate ex_pkt 41])"
    by simp
  from expired_entry_restarts [where fe = "ex_declined_entry 2000000000" and now = 3000000000
      and d = "\<lparr>expire_at = 2000000000\<rparr>" and tm = ex_timing and now_req = 3000000001 and enc_ret = 0 and pkt = ex_pkt] d r2
  have b: "gk_process_flow_entry ex_timing 3000000000 3000000001 0
      (ex_declined_entry 2000000000) ex_pkt =
     (0, ex_request_entry 3000000001 38 6, [Encapsulate ex_pkt 41])"
    by simp
  from expired_entry_restarts [where fe = "ex_declined_entry 2000000000" and now = 1000000000
      and d = "\<lparr>expire_at = 2000000000\<rparr>" and tm = ex_timing and now_req = 1000000001 and enc_ret = 0 and pkt = ex_pkt] d
  have c: "gk_process_flow_entry ex_timing 1000000000 1000000001 0
      (ex_declined_entry 2000000000) ex_pkt =
     (0, ex_declined_entry 2000000000, [Pktmbuf_free ex_pkt])"
    by simp
  from a b c show ?thesis by simp
qed

text \<open>
  The packet loop on a packet that is not IP: the buffer is freed and the loop goes on to
  the next packet, without a place in \<open>tx_bufs\<close>.
\<close>

lemma gk_proc_packet_non_ip:
  "rx_flow inp = None \<Longrightarrow>
   gk_proc_packet tm lls_conf gk_net inp (inst, tx_bufs, evs) =
     (inst, tx_bufs, evs @ [Pktmbuf_free (rx_pkt inp)])"
  by (simp add: gk_proc_packet_def drop_packet_def Let_def)

lemma gk_proc_packet_found:
  assumes flow: "rx_flow inp = Some fl" and nd: "\<not> rx_is_nd inp"
    and slot: "rte_hash_lookup_with_hash (ip_flow_hash_table inst) fl = int i"
    and run: "gk_process_flow_entry tm (rx_now inp) (rx_now_req inp) (rx_enc_ret inp)
                (ip_flow_entry_table inst i) (rx_pkt inp) = (r, fe, evs_fe)"
  shows "gk_proc_packet tm lls_conf gk_net inp (inst, tx_bufs, evs) =
     (if r < 0
      then (inst\<lparr>ip_flow_entry_table := (ip_flow_entry_table inst)(i := fe)\<rparr>, tx_bufs,
            evs @ evs_fe @ [Pktmbuf_free (rx_pkt inp)])
      else (inst\<lparr>ip_flow_entry_table := (ip_flow_entry_table inst)(i := fe)\<rparr>,
            tx_bufs @ [rx_pkt inp], evs @ evs_fe))"
  using flow nd slot run
  by (simp add: gk_proc_packet_def Let_def)

lemma gk_process_declined_early:
  assumes st: "u fe = Declined d" and early: "now < expire_at d"
  shows "gk_process_flow_entry tm now now_req enc_ret fe pkt = (0, fe, [Pktmbuf_free pkt])"
proof -
  from early have "\<not> expire_at d \<le> now" by simp
  with st show ?thesis
    by (simp add: gk_process_flow_entry_def state_def gk_process_declined_def drop_packet_def)
qed

text \<open>
  Claim C5, its last clause, against the code.  A packet of a known flow whose entry is
  declined with \<open>now < expire_at\<close> is given to \<open>rte_pktmbuf_free\<close>, the entry is unchanged
  and the state function returns the 0 of \<open>drop_packet\<close>.  On that 0 the packet loop of
  \<open>gk_proc\<close> appends the freed buffer to \<open>tx_bufs\<close>, and the iteration hands it to
  \<open>rte_eth_tx_burst\<close>: the packet is not dropped.
\<close>

theorem declined_packet_transmitted:
  assumes flow: "rx_flow inp = Some fl" and nd: "\<not> rx_is_nd inp"
    and slot: "rte_hash_lookup_with_hash (ip_flow_hash_table inst) fl = int i"
    and st: "u (ip_flow_entry_table inst i) = Declined d"
    and early: "rx_now inp < expire_at d"
  shows "gk_process_flow_entry tm (rx_now inp) (rx_now_req inp) (rx_enc_ret inp)
           (ip_flow_entry_table inst i) (rx_pkt inp) =
           (0, ip_flow_entry_table inst i, [Pktmbuf_free (rx_pkt inp)]) \<and>
         gk_proc_packet tm lls_conf gk_net inp (inst, tx_bufs, evs) =
           (inst, tx_bufs @ [rx_pkt inp], evs @ [Pktmbuf_free (rx_pkt inp)]) \<and>
         take 2 (snd (gk_proc_iteration tm lls_conf gk_net [inp] num_tx_succ clock inst)) =
           [Pktmbuf_free (rx_pkt inp), Tx_burst [rx_pkt inp]]"
proof -
  note run = gk_process_declined_early [OF st early, of tm "rx_now_req inp" "rx_enc_ret inp"
      "rx_pkt inp"]
  have pk: "gk_proc_packet tm lls_conf gk_net inp (inst, tx_bufs, evs) =
           (inst, tx_bufs @ [rx_pkt inp], evs @ [Pktmbuf_free (rx_pkt inp)])" for tx_bufs evs
    by (simp add: gk_proc_packet_found [OF flow nd slot run])
  have "take 2 (snd (gk_proc_iteration tm lls_conf gk_net [inp] num_tx_succ clock inst)) =
           [Pktmbuf_free (rx_pkt inp), Tx_burst [rx_pkt inp]]"
    by (simp add: gk_proc_iteration_def pk Let_def split_beta)
  with run pk show ?thesis by simp
qed

theorem declined_packet_transmitted_witness:
  "rx_flow ex_rx = Some 7 \<and> \<not> rx_is_nd ex_rx \<and>
   rx_now ex_rx < expire_at \<lparr>expire_at = 2000000000\<rparr> \<and>
   gk_proc_packet ex_timing ex_lls_conf ex_net ex_rx
     (ex_instance_with (ex_declined_entry 2000000000), [], []) =
     (ex_instance_with (ex_declined_entry 2000000000), [ex_pkt], [Pktmbuf_free ex_pkt]) \<and>
   take 2 (snd (gk_proc_iteration ex_timing ex_lls_conf ex_net [ex_rx] 1 (\<lambda>i. (0, 0))
                 (ex_instance_with (ex_declined_entry 2000000000)))) =
     [Pktmbuf_free ex_pkt, Tx_burst [ex_pkt]]"
proof -
  have flow: "rx_flow ex_rx = Some 7" and nd: "\<not> rx_is_nd ex_rx"
    and pkt: "rx_pkt ex_rx = ex_pkt"
    by (simp_all add: ex_rx_def)
  have slot: "rte_hash_lookup_with_hash
      (ip_flow_hash_table (ex_instance_with (ex_declined_entry 2000000000))) 7 = int 0"
    by (simp add: rte_hash_lookup_with_hash_def ex_instance_with_def)
  have st: "u (ip_flow_entry_table (ex_instance_with (ex_declined_entry 2000000000)) 0) =
      Declined \<lparr>expire_at = 2000000000\<rparr>"
    by (simp add: ex_instance_with_def ex_declined_entry_def)
  have early: "rx_now ex_rx < expire_at \<lparr>expire_at = 2000000000\<rparr>"
    by (simp add: ex_rx_def)
  note t = declined_packet_transmitted [OF flow nd slot st early, where tm = ex_timing
      and lls_conf = ex_lls_conf and gk_net = ex_net and tx_bufs = "[]" and evs = "[]"
      and num_tx_succ = 1 and clock = "\<lambda>i. (0, 0)", unfolded pkt]
  from t [THEN conjunct2, THEN conjunct1]
  have a: "gk_proc_packet ex_timing ex_lls_conf ex_net ex_rx
     (ex_instance_with (ex_declined_entry 2000000000), [], []) =
     (ex_instance_with (ex_declined_entry 2000000000), [ex_pkt], [Pktmbuf_free ex_pkt])"
    by simp
  note b = t [THEN conjunct2, THEN conjunct2]
  from flow nd early a b show ?thesis by blast
qed

text \<open>
  Claim C6 fails as stated: the first packet of a flow inserted at the same instant is
  sent with DSCP 41 and leaves \<open>last_priority = 38\<close>, not DSCP 3 and \<open>last_priority = 0\<close>.
\<close>

theorem first_packet_counterexample:
  "gk_process_request ex_timing 0 0 (initialize_flow_entry 0 7) ex_pkt =
     (0, ex_request_entry 0 38 6, [Encapsulate ex_pkt 41]) \<and>
   gk_process_request ex_timing 0 0 (initialize_flow_entry 0 7) ex_pkt \<noteq>
     (0, ex_request_entry 0 0 6, [Encapsulate ex_pkt 3])"
  by (simp add: request_eval initialize_flow_entry_def)

text \<open>
  Claim C6, amended.  Starting from a freshly inserted flow entry, a packet at the same
  instant computes the priority 0, which is below the initial \<open>last_priority = 38\<close> with
  a positive allowance: the result is DSCP 41, \<open>allowance = 6\<close> and \<open>last_priority = 38\<close>.
\<close>

theorem first_packet:
  "gk_process_request tm t enc_ret (initialize_flow_entry t fl) pkt =
     (if enc_ret < 0 then enc_ret else 0,
      \<lparr>flow = fl, u = Request \<lparr>last_packet_seen_at = t, last_priority = 38,
                               allowance = 6, grantor_id = 0\<rparr>\<rparr>,
      [Encapsulate pkt 41])"
  by (simp add: gk_process_request_def priority_from_delta_time_def initialize_flow_entry_def
      START_PRIORITY_def START_ALLOWANCE_def PRIORITY_MAX_def Let_def)

section \<open>The LLS entry points when a service is disabled\<close>

text \<open>
  Claim C9.  When the ARP service is enabled on neither interface, \<open>hold_arp\<close> and
  \<open>put_arp\<close> return a negative value and make no request to the LLS mailbox; when the ND
  service is enabled on neither interface, the same holds of \<open>hold_nd\<close>, \<open>put_nd\<close> and
  \<open>submit_nd\<close>.  A service is enabled when its \<open>iface_enabled\<close> holds of the front or of
  the back interface.
\<close>

theorem lls_service_disabled:
  "(\<not> arp_enabled lls_conf \<longrightarrow>
      fst (hold_arp lls_conf req_ret cb arg ip4 lcore_id) < 0 \<and>
      filter is_lls_req (snd (hold_arp lls_conf req_ret cb arg ip4 lcore_id)) = [] \<and>
      fst (put_arp lls_conf req_ret ip4 lcore_id) < 0 \<and>
      filter is_lls_req (snd (put_arp lls_conf req_ret ip4 lcore_id)) = []) \<and>
   (\<not> nd_enabled lls_conf \<longrightarrow>
      fst (hold_nd lls_conf req_ret cb arg ip6 lcore_id) < 0 \<and>
      filter is_lls_req (snd (hold_nd lls_conf req_ret cb arg ip6 lcore_id)) = [] \<and>
      fst (put_nd lls_conf req_ret ip6 lcore_id) < 0 \<and>
      filter is_lls_req (snd (put_nd lls_conf req_ret ip6 lcore_id)) = [] \<and>
      fst (submit_nd lls_conf req_ret pkt iface) < 0 \<and>
      filter is_lls_req (snd (submit_nd lls_conf req_ret pkt iface)) = []) \<and>
   (arp_enabled lls_conf \<longleftrightarrow>
      iface_enabled (arp_cache lls_conf) (net lls_conf) (front (net lls_conf)) \<or>
      iface_enabled (arp_cache lls_conf) (net lls_conf) (back (net lls_conf))) \<and>
   (nd_enabled lls_conf \<longleftrightarrow>
      iface_enabled (nd_cache lls_conf) (net lls_conf) (front (net lls_conf)) \<or>
      iface_enabled (nd_cache lls_conf) (net lls_conf) (back (net lls_conf)))"
  by (simp add: hold_arp_def put_arp_def hold_nd_def put_nd_def submit_nd_def
      arp_enabled_def nd_enabled_def)

theorem lls_service_disabled_witness:
  "\<not> arp_enabled ex_lls_off \<and> \<not> nd_enabled ex_lls_off \<and>
   hold_arp ex_lls_off 0 1 2 3 4 =
     (- 1, [Log ''lls: lcore %u called %s but ARP service is not enabled'']) \<and>
   put_arp ex_lls_off 0 3 4 =
     (- 1, [Log ''lls: lcore %u called %s but ARP service is not enabled'']) \<and>
   hold_nd ex_lls_off 0 1 2 3 4 =
     (- 1, [Log ''lls: lcore %u called %s but ND service is not enabled'']) \<and>
   put_nd ex_lls_off 0 3 4 =
     (- 1, [Log ''lls: lcore %u called %s but ND service is not enabled'']) \<and>
   submit_nd ex_lls_off 0 ex_pkt ex_if_front =
     (- 1, [Log ''lls: %s invoked but ND service is not enabled'']) \<and>
   arp_enabled ex_lls_conf \<and>
   hold_arp ex_lls_conf 0 1 2 3 4 =
     (0, [Lls_req LLS_REQ_HOLD (Lls_hold_req Arp_cache 1 2 4 (In_addr 3))])"
proof -
  have off: "\<not> arp_enabled ex_lls_off" "\<not> nd_enabled ex_lls_off"
    by (simp_all add: arp_enabled_def nd_enabled_def ex_lls_off_def)
  have on: "arp_enabled ex_lls_conf"
    by (simp add: arp_enabled_def ex_lls_conf_def ex_net_def ex_if_front_def)
  from lls_service_disabled [where lls_conf = ex_lls_off and req_ret = 0 and cb = 1
      and arg = 2 and ?ip4.0 = 3 and ?ip6.0 = 3 and lcore_id = 4 and pkt = ex_pkt
      and iface = ex_if_front] off on
  show ?thesis
    by (simp add: hold_arp_def put_arp_def hold_nd_def put_nd_def submit_nd_def)
qed

section \<open>The mailbox of a flow whose queue no block owns\<close>

lemma gk_block_search_none:
  assumes "\<forall>j. i \<le> j \<and> int j < num_lcores gk_conf \<longrightarrow>
             rx_queue_front (instances gk_conf ! j) \<noteq> queue_id"
  shows "gk_block_search gk_conf queue_id i = - 1"
  using assms
proof (induction gk_conf queue_id i rule: gk_block_search.induct)
  case (1 gk_conf queue_id i)
  show ?case
  proof (cases "int i < num_lcores gk_conf")
    case True
    with "1.prems" have ne: "rx_queue_front (instances gk_conf ! i) \<noteq> queue_id" by simp
    from "1.prems" have "\<forall>j. Suc i \<le> j \<and> int j < num_lcores gk_conf \<longrightarrow>
             rx_queue_front (instances gk_conf ! j) \<noteq> queue_id"
      by simp
    with "1.IH" [OF True ne] have "gk_block_search gk_conf queue_id (Suc i) = - 1" .
    with True ne show ?thesis by (simp add: gk_block_search.simps [of gk_conf queue_id i])
  next
    case False
    then show ?thesis by (simp add: gk_block_search.simps [of gk_conf queue_id i])
  qed
qed

lemma gk_block_search_found:
  assumes "gk_block_search gk_conf queue_id i \<noteq> - 1"
  shows "int i \<le> gk_block_search gk_conf queue_id i \<and>
         gk_block_search gk_conf queue_id i < num_lcores gk_conf \<and>
         rx_queue_front (instances gk_conf ! nat (gk_block_search gk_conf queue_id i)) = queue_id"
  using assms
proof (induction gk_conf queue_id i rule: gk_block_search.induct)
  case (1 gk_conf queue_id i)
  show ?case
  proof (cases "int i < num_lcores gk_conf")
    case True
    show ?thesis
    proof (cases "rx_queue_front (instances gk_conf ! i) = queue_id")
      case eq: True
      with True show ?thesis by (simp add: gk_block_search.simps [of gk_conf queue_id i])
    next
      case ne: False
      with True "1.prems" have "gk_block_search gk_conf queue_id (Suc i) \<noteq> - 1"
        by (simp add: gk_block_search.simps [of gk_conf queue_id i])
      from "1.IH" [OF True ne this] True ne show ?thesis
        by (simp add: gk_block_search.simps [of gk_conf queue_id i])
    qed
  next
    case False
    with "1.prems" show ?thesis by (simp add: gk_block_search.simps [of gk_conf queue_id i])
  qed
qed

text \<open>
  Claim C10.  When the queue that the redirection table gives for the flow is the front
  receive queue of no GK instance, the search leaves \<open>block_idx\<close> at \<open>-1\<close>, and
  \<open>get_responsible_gk_mailbox\<close> logs an error and returns \<open>&instances[-1].mb\<close>: an index
  outside of the array, not a null pointer and not an error value.
\<close>

theorem mailbox_of_unmatched_queue:
  fixes gk_conf :: gk_config and rss_ip_flow_hf :: "ip_flow \<Rightarrow> u32" and fl :: ip_flow
  defines "h \<equiv> rss_ip_flow_hf fl AND 127"
  defines "queue_id \<equiv> reta_conf (rss_conf gk_conf) (unat (h div 64)) (unat (h mod 64))"
  assumes reta: "reta_size (rss_conf gk_conf) = 128"
    and unmatched: "\<forall>i. int i < num_lcores gk_conf \<longrightarrow>
                      rx_queue_front (instances gk_conf ! i) \<noteq> queue_id"
  shows "gk_block_search gk_conf queue_id 0 = - 1 \<and>
         get_responsible_gk_mailbox rss_ip_flow_hf fl gk_conf =
           Inr (Instance_mb (- 1), [Log ''gk: wrong RSS configuration for GK blocks!'']) \<and>
         \<not> (0 \<le> (- 1 :: int) \<and> - 1 < num_lcores gk_conf) \<and>
         Instance_mb (- 1) \<noteq> Null_mailbox"
proof -
  from unmatched have none: "gk_block_search gk_conf queue_id 0 = - 1"
    by (intro gk_block_search_none) simp
  then show ?thesis
    using reta
    by (simp add: get_responsible_gk_mailbox_def Let_def RTE_RETA_GROUP_SIZE_def h_def
        queue_id_def)
qed

theorem mailbox_of_unmatched_queue_witness:
  "reta_size (rss_conf ex_gk_conf) = 128 \<and>
   rx_queue_front (instances ex_gk_conf ! 0) \<noteq> 5 \<and>
   rx_queue_front (instances ex_gk_conf ! 1) \<noteq> 5 \<and>
   get_responsible_gk_mailbox (\<lambda>fl. 77) 7 ex_gk_conf =
     Inr (Instance_mb (- 1), [Log ''gk: wrong RSS configuration for GK blocks!''])"
proof -
  have reta: "reta_size (rss_conf ex_gk_conf) = 128" by (simp add: ex_gk_conf_def)
  have q: "reta_conf (rss_conf ex_gk_conf) a b = 5" for a b by (simp add: ex_gk_conf_def)
  have i0: "rx_queue_front (instances ex_gk_conf ! 0) \<noteq> 5"
    and i1: "rx_queue_front (instances ex_gk_conf ! 1) \<noteq> 5"
    by (simp_all add: ex_gk_conf_def ex_instance_def)
  have "int i < num_lcores ex_gk_conf \<Longrightarrow> i = 0 \<or> i = 1" for i
    by (auto simp: ex_gk_conf_def)
  with i0 i1 have unmatched: "\<forall>i. int i < num_lcores ex_gk_conf \<longrightarrow>
      rx_queue_front (instances ex_gk_conf ! i) \<noteq>
      reta_conf (rss_conf ex_gk_conf) (unat (((\<lambda>fl. 77) (7 :: ip_flow) AND (127 :: u32)) div 64))
        (unat (((\<lambda>fl. 77) (7 :: ip_flow) AND (127 :: u32)) mod 64))"
    unfolding q by blast
  from mailbox_of_unmatched_queue [OF reta unmatched] reta i0 i1 show ?thesis
    by simp
qed

section \<open>A declined policy applied twice\<close>

lemma set_policy_declined:
  assumes "pol_state pol = GK_DECLINED"
  shows "set_policy tm now pol fe =
     (fe\<lparr>u := Declined \<lparr>expire_at = now + ucast (expire_sec (params_declined (params pol)))
                                          * cycles_per_sec tm\<rparr>\<rparr>, [])"
  using assms by (simp add: set_policy_def)

lemma add_ggu_policy_declined:
  fixes tm :: timing and inst :: gk_instance and now :: u64 and pol :: ggu_policy
  assumes dec: "pol_state pol = GK_DECLINED"
  defines "h \<equiv> ip_flow_hash_table inst"
  defines "d \<equiv> Declined \<lparr>expire_at = now + ucast (expire_sec (params_declined (params pol)))
                                          * cycles_per_sec tm\<rparr>"
  shows "add_ggu_policy tm now tsc pol inst =
     (case map_of (slots h) (pol_flow pol) of
        Some i \<Rightarrow> (inst\<lparr>ip_flow_entry_table :=
                           (ip_flow_entry_table inst)(i := (ip_flow_entry_table inst i)\<lparr>u := d\<rparr>)\<rparr>,
                   [])
      | None \<Rightarrow>
         (case find (\<lambda>i. i \<notin> snd ` set (slots h)) [0..<entries h] of
            Some i \<Rightarrow> (inst\<lparr>ip_flow_hash_table := h\<lparr>slots := (pol_flow pol, i) # slots h\<rparr>,
                             ip_flow_entry_table :=
                               (ip_flow_entry_table inst)(i := \<lparr>flow = pol_flow pol, u = d\<rparr>)\<rparr>,
                       [])
          | None \<Rightarrow> (inst, [Log ''The GK block failed to add new key to hash table!''])))"
  by (simp add: add_ggu_policy_def rte_hash_lookup_with_hash_def rte_hash_add_key_with_hash_def
      set_policy_declined [OF dec] initialize_flow_entry_def h_def d_def Let_def
      split: option.splits)


lemma add_ggu_policy_declined_twice:
  assumes dec: "pol_state pol = GK_DECLINED"
  shows "fst (add_ggu_policy tm now2 tsc2 pol (fst (add_ggu_policy tm now1 tsc1 pol inst))) =
         fst (add_ggu_policy tm now2 tsc2 pol inst)"
  by (simp add: add_ggu_policy_declined [OF dec] split: option.splits)

lemma add_ggu_policy_declined_entry:
  assumes dec: "pol_state pol = GK_DECLINED"
    and found: "0 \<le> rte_hash_lookup_with_hash
                  (ip_flow_hash_table (fst (add_ggu_policy tm now tsc pol inst))) (pol_flow pol)"
  shows "u (ip_flow_entry_table (fst (add_ggu_policy tm now tsc pol inst))
            (nat (rte_hash_lookup_with_hash
                  (ip_flow_hash_table (fst (add_ggu_policy tm now tsc pol inst))) (pol_flow pol)))) =
         Declined \<lparr>expire_at = now + ucast (expire_sec (params_declined (params pol)))
                                    * cycles_per_sec tm\<rparr>"
  using found
  by (simp add: add_ggu_policy_declined [OF dec] rte_hash_lookup_with_hash_def
      split: option.splits)

text \<open>
  Claim C8.  Applying the same declined policy twice to the same flow, at \<open>now1\<close> and then
  at \<open>now2\<close>, leaves the instance as one application at \<open>now2\<close> leaves it; the entry of
  the flow, when the table holds one, has \<open>expire_at = now2 + expire_sec * cycles_per_sec\<close>.
  The same holds of the switch on the policy state alone, on any entry.
\<close>

theorem decline_twice:
  fixes tm :: timing and inst :: gk_instance and pol :: ggu_policy
    and now1 now2 tsc1 tsc2 :: u64
  defines "e2 \<equiv> now2 + ucast (expire_sec (params_declined (params pol))) * cycles_per_sec tm"
  defines "inst1 \<equiv> fst (add_ggu_policy tm now1 tsc1 pol inst)"
  defines "inst2 \<equiv> fst (add_ggu_policy tm now2 tsc2 pol inst1)"
  defines "slot \<equiv> rte_hash_lookup_with_hash (ip_flow_hash_table inst2) (pol_flow pol)"
  assumes dec: "pol_state pol = GK_DECLINED"
  shows "inst2 = fst (add_ggu_policy tm now2 tsc2 pol inst) \<and>
         (0 \<le> slot \<longrightarrow>
            u (ip_flow_entry_table inst2 (nat slot)) = Declined \<lparr>expire_at = e2\<rparr>) \<and>
         fst (set_policy tm now2 pol (fst (set_policy tm now1 pol fe))) =
           fe\<lparr>u := Declined \<lparr>expire_at = e2\<rparr>\<rparr>"
proof -
  have a: "inst2 = fst (add_ggu_policy tm now2 tsc2 pol inst)"
    unfolding inst2_def inst1_def by (rule add_ggu_policy_declined_twice [OF dec])
  have b: "u (ip_flow_entry_table inst2 (nat slot)) = Declined \<lparr>expire_at = e2\<rparr>"
    if "0 \<le> slot"
    using that unfolding slot_def inst2_def e2_def
    by (rule add_ggu_policy_declined_entry [OF dec])
  have c: "fst (set_policy tm now2 pol (fst (set_policy tm now1 pol fe))) =
           fe\<lparr>u := Declined \<lparr>expire_at = e2\<rparr>\<rparr>"
    by (simp add: set_policy_declined [OF dec] e2_def)
  from a b c show ?thesis by blast
qed


theorem decline_twice_witness:
  "pol_state ex_decline = GK_DECLINED \<and>
   rte_hash_lookup_with_hash
     (ip_flow_hash_table
       (fst (add_ggu_policy ex_timing 1000000000 1000000000 ex_decline
              (fst (add_ggu_policy ex_timing 0 0 ex_decline (ex_instance 0))))))
     (pol_flow ex_decline) = 0 \<and>
   u (ip_flow_entry_table
       (fst (add_ggu_policy ex_timing 1000000000 1000000000 ex_decline
              (fst (add_ggu_policy ex_timing 0 0 ex_decline (ex_instance 0))))) 0) =
     Declined \<lparr>expire_at = 3000000000\<rparr> \<and>
   u (ip_flow_entry_table (fst (add_ggu_policy ex_timing 0 0 ex_decline (ex_instance 0))) 0) =
     Declined \<lparr>expire_at = 2000000000\<rparr>"
proof -
  have dec: "pol_state ex_decline = GK_DECLINED" by (simp add: ex_decline_def)
  have first: "fst (add_ggu_policy ex_timing 0 0 ex_decline (ex_instance 0)) =
      (ex_instance 0)\<lparr>ip_flow_hash_table := \<lparr>entries = 4, slots = [(7, 0)]\<rparr>,
        ip_flow_entry_table := (ip_flow_entry_table (ex_instance 0))
          (0 := \<lparr>flow = 7, u = Declined \<lparr>expire_at = 2000000000\<rparr>\<rparr>)\<rparr>"
    by (subst add_ggu_policy_declined [OF dec])
      (simp add: ex_instance_def ex_decline_def ex_timing_def upt_rec)
  have second: "fst (add_ggu_policy ex_timing 1000000000 1000000000 ex_decline
              (fst (add_ggu_policy ex_timing 0 0 ex_decline (ex_instance 0)))) =
      (ex_instance 0)\<lparr>ip_flow_hash_table := \<lparr>entries = 4, slots = [(7, 0)]\<rparr>,
        ip_flow_entry_table := (ip_flow_entry_table (ex_instance 0))
          (0 := \<lparr>flow = 7, u = Declined \<lparr>expire_at = 3000000000\<rparr>\<rparr>)\<rparr>"
    unfolding first
    by (subst add_ggu_policy_declined [OF dec])
      (simp add: ex_instance_def ex_decline_def ex_timing_def)
  have slot: "rte_hash_lookup_with_hash
     (ip_flow_hash_table
       (fst (add_ggu_policy ex_timing 1000000000 1000000000 ex_decline
              (fst (add_ggu_policy ex_timing 0 0 ex_decline (ex_instance 0))))))
     (pol_flow ex_decline) = 0"
    unfolding second
    by (simp add: rte_hash_lookup_with_hash_def ex_decline_def ex_instance_def)
  have e2: "1000000000 + ucast (expire_sec (params_declined (params ex_decline)))
                * cycles_per_sec ex_timing = (3000000000 :: u64)"
    by (simp add: ex_decline_def ex_timing_def)
  note both = decline_twice [OF dec, where tm = ex_timing and ?now1.0 = 0 and ?tsc1.0 = 0
      and ?now2.0 = 1000000000 and ?tsc2.0 = 1000000000 and inst = "ex_instance 0"
      and fe = "ex_declined_entry 0"]
  from both [THEN conjunct2, THEN conjunct1]
  have main: "u (ip_flow_entry_table
       (fst (add_ggu_policy ex_timing 1000000000 1000000000 ex_decline
              (fst (add_ggu_policy ex_timing 0 0 ex_decline (ex_instance 0))))) 0) =
     Declined \<lparr>expire_at = 3000000000\<rparr>"
    unfolding slot e2 by simp
  have before: "u (ip_flow_entry_table
        (fst (add_ggu_policy ex_timing 0 0 ex_decline (ex_instance 0))) 0) =
     Declined \<lparr>expire_at = 2000000000\<rparr>"
    unfolding first by simp
  from dec slot main before show ?thesis by blast
qed

section \<open>The mailbox in one iteration of the loop\<close>

lemma gk_proc_packet_mb:
  "mb (fst (gk_proc_packet tm lls_conf gk_net inp st)) = mb (fst st)"
  by (cases st)
    (simp add: gk_proc_packet_def Let_def split_beta split: option.splits)

lemma fold_gk_proc_packet_mb:
  "mb (fst (fold (gk_proc_packet tm lls_conf gk_net) rx st)) = mb (fst st)"
  by (induction rx arbitrary: st) (simp_all add: gk_proc_packet_mb)

lemma set_policy_mb_free: "filter is_mb_free_entry (snd (set_policy tm now pol fe)) = []"
  by (cases "pol_state pol") (simp_all add: set_policy_def Let_def)

lemma add_ggu_policy_mb:
  "mb (fst (add_ggu_policy tm now tsc pol inst)) = mb inst"
  by (simp add: add_ggu_policy_def Let_def split_beta)

lemma add_ggu_policy_mb_free:
  "filter is_mb_free_entry (snd (add_ggu_policy tm now tsc pol inst)) = []"
  by (simp add: add_ggu_policy_def Let_def split_beta set_policy_mb_free)

lemma process_gk_cmd_mb: "mb (fst (process_gk_cmd tm now tsc c inst)) = mb inst"
  by (cases "op c") (simp_all add: process_gk_cmd_def add_ggu_policy_mb)

lemma process_gk_cmd_mb_free:
  "filter is_mb_free_entry (snd (process_gk_cmd tm now tsc c inst)) = []"
  by (cases "op c") (simp_all add: process_gk_cmd_def add_ggu_policy_mb_free)

lemma gk_proc_cmds_mb: "mb (fst (gk_proc_cmds tm clock i cs inst)) = mb inst"
  by (induction cs arbitrary: i inst) (simp_all add: split_beta Let_def process_gk_cmd_mb)

lemma gk_proc_cmds_mb_free:
  "filter is_mb_free_entry (snd (gk_proc_cmds tm clock i cs inst)) = map Mb_free_entry cs"
  by (induction cs arbitrary: i inst)
    (simp_all add: split_beta Let_def process_gk_cmd_mb_free)


lemma gk_process_request_mb_free:
  "filter is_mb_free_entry (snd (snd (gk_process_request tm now enc_ret fe pkt))) = []"
  by (simp add: gk_process_request_unfold Let_def priority_from_delta_time_snd)

lemma gk_process_flow_entry_mb_free:
  "filter is_mb_free_entry (snd (snd (gk_process_flow_entry tm now now_req enc_ret fe pkt))) = []"
  by (cases "u fe")
    (simp_all add: gk_process_flow_entry_def state_def gk_process_granted_def
      gk_process_declined_def drop_packet_def gk_process_request_mb_free Let_def split_beta)

lemma submit_nd_mb_free:
  "filter is_mb_free_entry (snd (submit_nd lls_conf req_ret pkt iface)) = []"
  by (simp add: submit_nd_def)

lemma gk_proc_packet_mb_free:
  "filter is_mb_free_entry (snd (snd (gk_proc_packet tm lls_conf gk_net inp st))) =
   filter is_mb_free_entry (snd (snd st))"
  by (cases st)
    (simp add: gk_proc_packet_def Let_def split_beta drop_packet_def submit_nd_mb_free
      gk_process_flow_entry_mb_free split: option.splits)

lemma fold_gk_proc_packet_mb_free:
  "filter is_mb_free_entry (snd (snd (fold (gk_proc_packet tm lls_conf gk_net) rx st))) =
   filter is_mb_free_entry (snd (snd st))"
  by (induction rx arbitrary: st) (simp_all add: gk_proc_packet_mb_free)

lemma gk_proc_iteration_empty_burst:
  "gk_proc_iteration tm lls_conf gk_net [] num_tx_succ clock inst = (inst, [])"
  by (simp add: gk_proc_iteration_def)

lemma gk_proc_iteration_burst:
  fixes tm :: timing and lls_conf :: lls_config and gk_net :: net_config
    and inst :: gk_instance and rx :: "rx_input list"
  assumes "rx \<noteq> []"
  defines "after_rx \<equiv> fst (fold (gk_proc_packet tm lls_conf gk_net) rx (inst, [], []))"
  shows "fst (gk_proc_iteration tm lls_conf gk_net rx num_tx_succ clock inst) =
           fst (gk_proc_cmds tm clock 0 (take GK_CMD_BURST_SIZE (mb inst))
                 (after_rx\<lparr>mb := drop GK_CMD_BURST_SIZE (mb inst)\<rparr>))"
    and "mb (fst (gk_proc_iteration tm lls_conf gk_net rx num_tx_succ clock inst)) =
           drop GK_CMD_BURST_SIZE (mb inst)"
    and "filter is_mb_free_entry
           (snd (gk_proc_iteration tm lls_conf gk_net rx num_tx_succ clock inst)) =
           map Mb_free_entry (take GK_CMD_BURST_SIZE (mb inst))"
proof -
  have m: "mb after_rx = mb inst"
    by (simp add: after_rx_def fold_gk_proc_packet_mb)
  show 1: "fst (gk_proc_iteration tm lls_conf gk_net rx num_tx_succ clock inst) =
           fst (gk_proc_cmds tm clock 0 (take GK_CMD_BURST_SIZE (mb inst))
                 (after_rx\<lparr>mb := drop GK_CMD_BURST_SIZE (mb inst)\<rparr>))"
    using assms(1)
    by (simp add: gk_proc_iteration_def Let_def split_beta after_rx_def [symmetric] m)
  show "mb (fst (gk_proc_iteration tm lls_conf gk_net rx num_tx_succ clock inst)) =
           drop GK_CMD_BURST_SIZE (mb inst)"
    by (simp add: 1 gk_proc_cmds_mb)
  show "filter is_mb_free_entry
           (snd (gk_proc_iteration tm lls_conf gk_net rx num_tx_succ clock inst)) =
           map Mb_free_entry (take GK_CMD_BURST_SIZE (mb inst))"
    using assms(1) fold_gk_proc_packet_mb_free [of tm lls_conf gk_net rx "(inst, [], [])"]
    by (simp add: gk_proc_iteration_def Let_def split_beta after_rx_def [symmetric] m
        gk_proc_cmds_mb_free)
qed


text \<open>
  Claim C7 fails as stated: with 33 commands in the mailbox, an iteration that receives a
  packet dequeues and frees the first 32, and the last command stays in the mailbox.
\<close>

theorem mailbox_drain_counterexample:
  "ex_cmd 32 \<in> set (map ex_cmd [0..<33]) \<and>
   mb (fst (gk_proc_iteration ex_timing ex_lls_conf ex_net [ex_rx] 1 (\<lambda>i. (0, 0))
             ((ex_instance 0)\<lparr>mb := map ex_cmd [0..<33]\<rparr>))) = [ex_cmd 32] \<and>
   filter is_mb_free_entry
     (snd (gk_proc_iteration ex_timing ex_lls_conf ex_net [ex_rx] 1 (\<lambda>i. (0, 0))
             ((ex_instance 0)\<lparr>mb := map ex_cmd [0..<33]\<rparr>))) =
     map Mb_free_entry (map ex_cmd [0..<32])"
proof -
  have ne: "[ex_rx] \<noteq> []" by simp
  show ?thesis
    by (simp add: gk_proc_iteration_burst(2,3) [OF ne] GK_CMD_BURST_SIZE_def
        drop_map take_map)
qed

text \<open>
  Claim C7, amended.  An iteration of the GK loop whose receive burst is not empty takes
  the oldest 32 commands of the mailbox (all of them when there are fewer), leaves the
  others in the mailbox, and applies \<open>process_gk_cmd\<close> and then \<open>mb_free_entry\<close> to each of
  the commands taken, in the order of the mailbox, after the packets of the burst.
\<close>

theorem mailbox_drain:
  fixes tm :: timing and lls_conf :: lls_config and gk_net :: net_config
    and inst :: gk_instance and rx :: "rx_input list" and num_tx_succ :: nat
    and clock :: "nat \<Rightarrow> u64 \<times> u64"
  assumes nonempty: "rx \<noteq> []"
  defines "after_rx \<equiv> fst (fold (gk_proc_packet tm lls_conf gk_net) rx (inst, [], []))"
  defines "result \<equiv> gk_proc_iteration tm lls_conf gk_net rx num_tx_succ clock inst"
  shows "fst result = fst (gk_proc_cmds tm clock 0 (take 32 (mb inst))
                            (after_rx\<lparr>mb := drop 32 (mb inst)\<rparr>)) \<and>
         mb (fst result) = drop 32 (mb inst) \<and>
         filter is_mb_free_entry (snd result) = map Mb_free_entry (take 32 (mb inst)) \<and>
         (\<forall>k. k < 32 \<and> k < length (mb inst) \<longrightarrow>
            Mb_free_entry (mb inst ! k) \<in> set (snd result))"
proof -
  note b = gk_proc_iteration_burst [OF nonempty, where tm = tm and lls_conf = lls_conf
      and gk_net = gk_net and inst = inst and num_tx_succ = num_tx_succ and clock = clock,
      folded after_rx_def result_def, unfolded GK_CMD_BURST_SIZE_def]
  have "Mb_free_entry (mb inst ! k) \<in> set (snd result)"
    if "k < 32" "k < length (mb inst)" for k
  proof -
    from that have "Mb_free_entry (mb inst ! k) \<in> set (map Mb_free_entry (take 32 (mb inst)))"
      by (auto simp: in_set_conv_nth intro!: image_eqI [where x = "mb inst ! k"] exI [where x = k])
    then have "Mb_free_entry (mb inst ! k) \<in> set (filter is_mb_free_entry (snd result))"
      by (simp only: b(3))
    then show ?thesis by simp
  qed
  with b show ?thesis by blast
qed


lemmas iteration_eval =
  gk_proc_iteration_def gk_proc_packet_def gk_process_flow_entry_def state_def
  process_gk_cmd_def add_ggu_policy_def set_policy_def
  rte_hash_lookup_with_hash_def rte_hash_add_key_with_hash_def
  ex_instance_def ex_rx_def ex_cmd_def ex_decline_def initialize_flow_entry_def
  GK_CMD_BURST_SIZE_def request_eval upt_rec

theorem mailbox_drain_witness:
  "[ex_rx] \<noteq> [] \<and>
   mb (fst (gk_proc_iteration ex_timing ex_lls_conf ex_net [ex_rx] 1 (\<lambda>i. (0, 0))
             ((ex_instance 0)\<lparr>mb := [ex_cmd 1, ex_cmd 2]\<rparr>))) = [] \<and>
   filter is_mb_free_entry
     (snd (gk_proc_iteration ex_timing ex_lls_conf ex_net [ex_rx] 1 (\<lambda>i. (0, 0))
             ((ex_instance 0)\<lparr>mb := [ex_cmd 1, ex_cmd 2]\<rparr>))) =
     [Mb_free_entry (ex_cmd 1), Mb_free_entry (ex_cmd 2)] \<and>
   snd (gk_proc_iteration ex_timing ex_lls_conf ex_net [ex_rx] 1 (\<lambda>i. (0, 0))
             ((ex_instance 0)\<lparr>mb := [ex_cmd 1, ex_cmd 2]\<rparr>)) =
     [Encapsulate ex_pkt 41, Tx_burst [ex_pkt],
      Mb_free_entry (ex_cmd 1), Mb_free_entry (ex_cmd 2)] \<and>
   u (ip_flow_entry_table
        (fst (gk_proc_iteration ex_timing ex_lls_conf ex_net [ex_rx] 1 (\<lambda>i. (0, 0))
               ((ex_instance 0)\<lparr>mb := [ex_cmd 1, ex_cmd 2]\<rparr>))) 2) =
     Declined \<lparr>expire_at = 2000000000\<rparr>"
proof -
  have ne: "[ex_rx] \<noteq> []" by simp
  have evs: "snd (gk_proc_iteration ex_timing ex_lls_conf ex_net [ex_rx] 1 (\<lambda>i. (0, 0))
             ((ex_instance 0)\<lparr>mb := [ex_cmd 1, ex_cmd 2]\<rparr>)) =
     [Encapsulate ex_pkt 41, Tx_burst [ex_pkt],
      Mb_free_entry (ex_cmd 1), Mb_free_entry (ex_cmd 2)]"
    by (simp add: iteration_eval)
  have entry: "u (ip_flow_entry_table
        (fst (gk_proc_iteration ex_timing ex_lls_conf ex_net [ex_rx] 1 (\<lambda>i. (0, 0))
               ((ex_instance 0)\<lparr>mb := [ex_cmd 1, ex_cmd 2]\<rparr>))) 2) =
     Declined \<lparr>expire_at = 2000000000\<rparr>"
    by (simp add: iteration_eval)
  note drain = mailbox_drain [OF ne, where tm = ex_timing and lls_conf = ex_lls_conf
      and gk_net = ex_net and num_tx_succ = 1 and clock = "\<lambda>i. (0, 0)"
      and inst = "(ex_instance 0)\<lparr>mb := [ex_cmd 1, ex_cmd 2]\<rparr>"]
  from drain [THEN conjunct2, THEN conjunct1] have left: "mb (fst (gk_proc_iteration ex_timing ex_lls_conf ex_net [ex_rx] 1
             (\<lambda>i. (0, 0)) ((ex_instance 0)\<lparr>mb := [ex_cmd 1, ex_cmd 2]\<rparr>))) = []"
    by simp
  from drain [THEN conjunct2, THEN conjunct2, THEN conjunct1] have freed: "filter is_mb_free_entry
     (snd (gk_proc_iteration ex_timing ex_lls_conf ex_net [ex_rx] 1 (\<lambda>i. (0, 0))
             ((ex_instance 0)\<lparr>mb := [ex_cmd 1, ex_cmd 2]\<rparr>))) =
     [Mb_free_entry (ex_cmd 1), Mb_free_entry (ex_cmd 2)]"
    by simp
  from ne left freed evs entry show ?thesis by blast
qed

end
